theory Spec2Isabelle
  imports Complex_Main "HOL-Library.Log_Nat" "HOL-Library.Sublist"
begin

section \<open>Python values used by train_model\<close>

text \<open>
  Exceptions of the script are values: every \<open>raise\<close>, failed \<open>assert\<close> and failing
  builtin is a branch \<open>Inl e\<close> of the model.
\<close>

datatype error = ValueError string | AssertionError string | KeyError string | NameError string
  | RuntimeError string

text \<open>
  A Python float. A finite binary64 value is represented by the rational number it
  denotes (the two zeros are identified: the script only compares floats and formats
  them). Comparisons with \<open>NaN\<close> are false, as in IEEE 754.
\<close>

datatype pyfloat = NaN | NegInf | Fin rat | PosInf

fun float_lt :: "pyfloat \<Rightarrow> pyfloat \<Rightarrow> bool" where
  "float_lt NaN _ = False"
| "float_lt _ NaN = False"
| "float_lt _ NegInf = False"
| "float_lt NegInf _ = True"
| "float_lt PosInf _ = False"
| "float_lt (Fin a) PosInf = True"
| "float_lt (Fin a) (Fin b) = (a < b)"

definition float_gt :: "pyfloat \<Rightarrow> pyfloat \<Rightarrow> bool" where
  "float_gt a b = float_lt b a"

fun isnan :: "pyfloat \<Rightarrow> bool" where
  "isnan NaN = True"
| "isnan _ = False"

subsection \<open>Rounding a rational to the nearest binary64 value\<close>

definition pow2 :: "int \<Rightarrow> rat" where
  "pow2 e = (if 0 \<le> e then 2 ^ nat e else 1 / 2 ^ nat (- e))"

definition pow10 :: "int \<Rightarrow> rat" where
  "pow10 e = (if 0 \<le> e then 10 ^ nat e else 1 / 10 ^ nat (- e))"

definition round_half_even :: "rat \<Rightarrow> int" where
  "round_half_even x =
     (let f = \<lfloor>x\<rfloor>; d = x - of_int f
      in if d < 1 / 2 then f else if 1 / 2 < d then f + 1 else if even f then f else f + 1)"

definition ilog2 :: "rat \<Rightarrow> int" where
  \<comment> \<open>\<open>\<lfloor>log\<^sub>2 a\<rfloor>\<close> for positive \<open>a\<close>\<close>
  "ilog2 a =
     (let k = bitlen (fst (quotient_of a)) - bitlen (snd (quotient_of a))
      in if pow2 k \<le> a then k else k - 1)"

definition to_double :: "rat \<Rightarrow> pyfloat" where
  \<comment> \<open>round to nearest, ties to even, 53 bits of precision, gradual underflow,
      overflow to infinity\<close>
  "to_double q =
     (if q = 0 then Fin 0
      else let a = \<bar>q\<bar>;
               u = max (ilog2 a - 52) (- 1074);
               r = of_int (round_half_even (a / pow2 u)) * pow2 u
           in if pow2 1024 \<le> r then (if q < 0 then NegInf else PosInf)
              else Fin (if q < 0 then - r else r))"

section \<open>String operations\<close>

definition startswith :: "string \<Rightarrow> string \<Rightarrow> bool" where
  \<comment> \<open>\<open>s.startswith(p)\<close>\<close>
  "startswith s p = (take (length p) s = p)"

fun py_in :: "string \<Rightarrow> string \<Rightarrow> bool" where
  \<comment> \<open>\<open>sub in s\<close>\<close>
  "py_in sub [] = (sub = [])"
| "py_in sub (c # cs) = (startswith (c # cs) sub \<or> py_in sub cs)"

fun cons_first :: "char \<Rightarrow> string list \<Rightarrow> string list" where
  "cons_first c [] = [[c]]"
| "cons_first c (w # ws) = (c # w) # ws"

fun split_chr :: "char \<Rightarrow> string \<Rightarrow> string list" where
  \<comment> \<open>\<open>s.split(sep)\<close> for a separator of one character\<close>
  "split_chr sep [] = [[]]"
| "split_chr sep (c # cs) =
     (if c = sep then [] # split_chr sep cs else cons_first c (split_chr sep cs))"

definition drop_last :: "nat \<Rightarrow> string \<Rightarrow> string" where
  \<comment> \<open>\<open>s[:-n]\<close> for \<open>n > 0\<close>\<close>
  "drop_last n s = take (length s - n) s"

subsection \<open>The builtin float() on ASCII strings\<close>

definition is_digit :: "char \<Rightarrow> bool" where
  "is_digit c = (c \<in> set ''0123456789'')"

definition digit_val :: "char \<Rightarrow> nat" where
  "digit_val c = of_char c - 48"

definition nat_of_digits :: "string \<Rightarrow> nat" where
  "nat_of_digits ds = foldl (\<lambda>n c. 10 * n + digit_val c) 0 ds"

definition is_space :: "char \<Rightarrow> bool" where
  "is_space c = ((of_char c :: nat) \<in> {9, 10, 11, 12, 13, 28, 29, 30, 31, 32})"

definition strip :: "string \<Rightarrow> string" where
  "strip s = rev (dropWhile is_space (rev (dropWhile is_space s)))"

fun remove_underscores :: "char \<Rightarrow> string \<Rightarrow> string option" where
  \<comment> \<open>an underscore is allowed only between two digits; the first argument is the
      previous character\<close>
  "remove_underscores prev [] = (if prev = CHR ''_'' then None else Some [])"
| "remove_underscores prev (c # cs) =
     (if c = CHR ''_'' then
        (if is_digit prev then remove_underscores c cs else None)
      else if prev = CHR ''_'' \<and> \<not> is_digit c then None
      else map_option ((#) c) (remove_underscores c cs))"

definition to_lower :: "char \<Rightarrow> char" where
  "to_lower c =
     (if 65 \<le> (of_char c :: nat) \<and> (of_char c :: nat) \<le> 90 then char_of (of_char c + 32 :: nat) else c)"

definition split_sign :: "string \<Rightarrow> bool \<times> string" where
  "split_sign s =
     (case s of
        [] \<Rightarrow> (False, [])
      | c # r \<Rightarrow> if c = CHR ''-'' then (True, r) else if c = CHR ''+'' then (False, r) else (False, s))"

definition parse_exponent :: "string \<Rightarrow> int \<times> string" where
  \<comment> \<open>an exponent without digits is not consumed\<close>
  "parse_exponent s =
     (case s of
        [] \<Rightarrow> (0, s)
      | c # r \<Rightarrow>
          if c = CHR ''e'' \<or> c = CHR ''E'' then
            (let neg = fst (split_sign r); r' = snd (split_sign r); ds = takeWhile is_digit r'
             in if ds = [] then (0, s)
                else (if neg then - int (nat_of_digits ds) else int (nat_of_digits ds),
                      dropWhile is_digit r'))
          else (0, s))"

definition parse_number :: "string \<Rightarrow> (rat \<times> string) option" where
  \<comment> \<open>digits, optional point and digits, optional exponent; at least one digit\<close>
  "parse_number s =
     (let ip = takeWhile is_digit s;
          r1 = dropWhile is_digit s;
          has_point = (r1 \<noteq> [] \<and> hd r1 = CHR ''.'');
          fp = (if has_point then takeWhile is_digit (tl r1) else []);
          r2 = (if has_point then dropWhile is_digit (tl r1) else r1)
      in if ip = [] \<and> fp = [] then None
         else Some (of_nat (nat_of_digits (ip @ fp))
                      * pow10 (fst (parse_exponent r2) - int (length fp)),
                    snd (parse_exponent r2)))"

definition not_a_float :: error where
  "not_a_float = ValueError ''could not convert string to float''"

definition py_float :: "string \<Rightarrow> error + pyfloat" where
  "py_float s =
     (case remove_underscores (CHR ''x'') (strip s) of
        None \<Rightarrow> Inl not_a_float
      | Some t \<Rightarrow>
          (let neg = fst (split_sign t); body = snd (split_sign t)
           in case parse_number body of
                Some (q, rest) \<Rightarrow>
                  if rest = [] then Inr (to_double (if neg then - q else q)) else Inl not_a_float
              | None \<Rightarrow>
                  if map to_lower body = ''inf'' \<or> map to_lower body = ''infinity''
                  then Inr (if neg then NegInf else PosInf)
                  else if map to_lower body = ''nan'' then Inr NaN
                  else Inl not_a_float))"

section \<open>Selecting the best checkpoint of a directory\<close>

definition val_metric :: "string \<Rightarrow> error + pyfloat" where
  \<comment> \<open>the metric value embedded in a checkpoint filename\<close>
  "val_metric path =
     (let t = drop_last (length ''.ckpt'') (last (split_chr (CHR ''='') path))
      in if py_in ''-v'' t then py_float (drop_last (length ''-v1'') t) else py_float t)"

text \<open>The loop choosing the best pretrained model before finetuning.\<close>

fun pretrained_loop :: "bool \<Rightarrow> string list \<Rightarrow> string \<times> pyfloat \<Rightarrow> error + string \<times> pyfloat" where
  "pretrained_loop minimize_metric [] best = Inr best"
| "pretrained_loop minimize_metric (path # paths) (best_model_path, best_metric) =
     (case val_metric path of
        Inl e \<Rightarrow> Inl e
      | Inr v \<Rightarrow>
          if minimize_metric then
            (if float_lt v best_metric then pretrained_loop minimize_metric paths (path, v)
             else pretrained_loop minimize_metric paths (best_model_path, best_metric))
          else
            (if float_gt v best_metric then pretrained_loop minimize_metric paths (path, v)
             else pretrained_loop minimize_metric paths (best_model_path, best_metric)))"

definition best_pretrained_model :: "string \<Rightarrow> string list \<Rightarrow> error + string \<times> pyfloat" where
  "best_pretrained_model pretrain_metric_direction_which_is_optimal all_saved_models =
     (let minimize_metric = (pretrain_metric_direction_which_is_optimal = ''min'')
      in pretrained_loop minimize_metric all_saved_models
           ([], if minimize_metric then PosInf else NegInf))"

text \<open>The loop choosing the best existing model of a run that is reused.\<close>

fun existing_loop :: "bool \<Rightarrow> string list \<Rightarrow> string \<times> pyfloat \<Rightarrow> error + string \<times> pyfloat" where
  "existing_loop minimize_metric [] best = Inr best"
| "existing_loop minimize_metric (path # paths) (best_model_path, best_metric) =
     (case val_metric path of
        Inl e \<Rightarrow> Inl e
      | Inr v \<Rightarrow>
          if minimize_metric then
            (if float_lt v best_metric then existing_loop minimize_metric paths (path, v)
             else existing_loop minimize_metric paths (best_model_path, best_metric))
          else
            (if float_gt v best_metric then existing_loop minimize_metric paths (path, v)
             else existing_loop minimize_metric paths (best_model_path, best_metric)))"

definition best_existing_model :: "string \<Rightarrow> string list \<Rightarrow> error + string \<times> pyfloat" where
  "best_existing_model metric_direction_which_is_optimal all_saved_models =
     (let minimize_metric = (metric_direction_which_is_optimal = ''min'')
      in existing_loop minimize_metric all_saved_models
           ([], if minimize_metric then PosInf else NegInf))"

section \<open>Naming of checkpoint files\<close>

text \<open>
  The script hands the pattern \<open>"best-{epoch:02d}-{" + metric_to_monitor + ":.5f}"\<close> to the
  checkpoint callback of the training framework, which is not part of the sources. The
  functions of this section describe the file the callback writes for that pattern.
\<close>

definition digit_char :: "nat \<Rightarrow> char" where
  "digit_char d = ''0123456789'' ! d"

fun digits_of :: "nat \<Rightarrow> string" where
  "digits_of n = (if n < 10 then [digit_char n] else digits_of (n div 10) @ [digit_char (n mod 10)])"

declare digits_of.simps [simp del]

definition format_02d :: "nat \<Rightarrow> string" where
  \<comment> \<open>Modelled from the spec: the format \<open>{epoch:02d}\<close> of the naming pattern, decimal
      digits padded with zeros to width two\<close>
  "format_02d n = replicate (2 - length (digits_of n)) (CHR ''0'') @ digits_of n"

definition frac5 :: "nat \<Rightarrow> string" where
  \<comment> \<open>five fractional digits, padded with zeros on the left\<close>
  "frac5 m = replicate (5 - length (digits_of m)) (CHR ''0'') @ digits_of m"

definition format_5f :: "pyfloat \<Rightarrow> string" where
  \<comment> \<open>Modelled from the spec: the format \<open>{:.5f}\<close> of the naming pattern, the value rounded
      to five decimals (ties to even) and printed in fixed notation\<close>
  "format_5f x =
     (case x of
        NaN \<Rightarrow> ''nan''
      | PosInf \<Rightarrow> ''inf''
      | NegInf \<Rightarrow> ''-inf''
      | Fin q \<Rightarrow>
          (let n = nat \<bar>round_half_even (q * 100000)\<bar>
           in (if q < 0 then ''-'' else []) @ digits_of (n div 100000) @ ''.''
              @ frac5 (n mod 100000)))"

definition checkpoint_filename :: "string \<Rightarrow> string" where
  \<comment> \<open>the pattern built by the script\<close>
  "checkpoint_filename metric_to_monitor = ''best-{epoch:02d}-{'' @ metric_to_monitor @ '':.5f}''"

definition format_checkpoint_name :: "string \<Rightarrow> nat \<Rightarrow> pyfloat \<Rightarrow> string" where
  \<comment> \<open>Modelled from the spec: the checkpoint callback of the training framework is not in
      the sources; for the pattern \<open>checkpoint_filename metric_to_monitor\<close> it writes the
      name of each field and \<open>=\<close> before the formatted value, and appends \<open>.ckpt\<close>\<close>
  "format_checkpoint_name metric_to_monitor epoch value =
     ''best-epoch='' @ format_02d epoch @ ''-'' @ metric_to_monitor @ ''='' @ format_5f value
       @ ''.ckpt''"

definition round5 :: "pyfloat \<Rightarrow> pyfloat" where
  \<comment> \<open>the value rounded to five decimal places, as a float\<close>
  "round5 x =
     (case x of Fin q \<Rightarrow> to_double (of_int (round_half_even (q * 100000)) / 100000) | _ \<Rightarrow> x)"

section \<open>The run: train_model\<close>

record args =
  modelling_strategy :: string
  model_name :: string
  joint_tasks :: "string option"
  pretrain_tasks :: "string option"
  finetune_tasks :: "string option"
  single_task :: "string option"
  num_random_seeds :: int
  use_existing_models :: bool
  metric_direction_which_is_optimal :: string
  pretrain_metric_direction_which_is_optimal :: string
  optional_name_suffix :: "string option"

record config =
  root_dir :: string
  root_data_dir :: string

text \<open>
  What the run does to the outside is a log of events over a set of existing paths. The
  loader classes, the predictor and the trainer are not part of the script: their calls
  are events, and whether a training call completes is read from the environment.
\<close>

datatype event =
    MakeDirs string
  | Print string
  | LoadCheckpoint string
  | InstantiateDataloaders string
  | FitSimpleRegression string
  | TrainerFit string
  | WriteDone string
  | Predict string

record world =
  existing :: "string list"
  log :: "event list"

record env =
  listdir :: "string \<Rightarrow> string list"
  fit_error :: "string \<Rightarrow> error option"

definition emit :: "event \<Rightarrow> world \<Rightarrow> world" where
  "emit e w = w\<lparr>log := log w @ [e]\<rparr>"

definition path_exists :: "world \<Rightarrow> string \<Rightarrow> bool" where
  "path_exists w p = (p \<in> set (existing w))"

definition path_join2 :: "string \<Rightarrow> string \<Rightarrow> string" where
  "path_join2 a b =
     (if startswith b ''/'' then b
      else if a = [] \<or> last a = CHR ''/'' then a @ b
      else a @ ''/'' @ b)"

definition path_join :: "string \<Rightarrow> string list \<Rightarrow> string" where
  \<comment> \<open>\<open>os.path.join(a, *ps)\<close>\<close>
  "path_join a ps = foldl path_join2 a ps"

definition makedirs :: "string \<Rightarrow> world \<Rightarrow> world" where
  \<comment> \<open>\<open>os.makedirs(d, exist_ok=True)\<close>\<close>
  "makedirs d w = emit (MakeDirs d) (w\<lparr>existing := d # existing w\<rparr>)"

definition ensure_dir :: "string \<Rightarrow> world \<Rightarrow> world" where
  \<comment> \<open>\<open>if not os.path.exists(d): os.makedirs(d, exist_ok=True)\<close>\<close>
  "ensure_dir d w = (if path_exists w d then w else makedirs d w)"

definition create_directories :: "config \<Rightarrow> world \<Rightarrow> world" where
  "create_directories cfg w =
     (let w1 = ensure_dir (root_dir cfg) w;
          w2 = ensure_dir (path_join (root_dir cfg) [''saved_models'']) w1;
          w3 = ensure_dir (path_join (root_dir cfg) [''summaries'']) w2;
          w4 = ensure_dir (root_data_dir cfg) w3
      in ensure_dir (path_join (root_data_dir cfg) [''common'']) w4)"

subsection \<open>Resolving the tasks\<close>

definition setup_tasks :: "args \<Rightarrow> bool \<Rightarrow> error + string list \<times> string list option" where
  \<comment> \<open>the task list of this phase and, when the pretraining branch ran, the list of
      pretraining tasks\<close>
  "setup_tasks a finetune =
     (if modelling_strategy a = ''joint'' then
        (case joint_tasks a of
           None \<Rightarrow> Inl (AssertionError ''Must specify tasks to jointly train on'')
         | Some jt \<Rightarrow> Inr (split_chr (CHR '','') jt, None))
      else if startswith (modelling_strategy a) ''pretrain'' then
        (case pretrain_tasks a of
           None \<Rightarrow> Inl (AssertionError ''Must specify tasks to pretrain on'')
         | Some pt \<Rightarrow>
             (case finetune_tasks a of
                None \<Rightarrow> Inl (AssertionError
                              ''Must specify tasks to finetune or perform linear probing on'')
              | Some ft \<Rightarrow>
                  Inr (if finetune then split_chr (CHR '','') ft else split_chr (CHR '','') pt,
                       Some (split_chr (CHR '','') pt))))
      else if startswith (modelling_strategy a) ''single_task'' then
        (case single_task a of
           None \<Rightarrow> Inl (AssertionError ''Must specify task to train on'')
         | Some t \<Rightarrow> Inr ([t], None))
      else Inl (ValueError ''Invalid modelling strategy''))"

definition check_motif_based :: "args \<Rightarrow> string list \<Rightarrow> error + unit" where
  "check_motif_based a tasks =
     (if startswith (model_name a) ''MotifBased'' then
        (if length tasks \<noteq> 1 then
           Inl (AssertionError ''Motif-based models can only be trained on a single task'')
         else if hd tasks = ''FluorescenceData'' \<or> hd tasks = ''FluorescenceData_DE''
                 \<or> hd tasks = ''Malinois_MPRA'' then Inr ()
         else Inl (AssertionError
           ''Motif-based models can only be trained on FluorescenceData, FluorescenceData_DE, or Malinois_MPRA''))
      else Inr ())"

subsection \<open>Names and the number of models\<close>

fun join :: "string \<Rightarrow> string list \<Rightarrow> string" where
  \<comment> \<open>\<open>sep.join(xs)\<close>\<close>
  "join sep [] = []"
| "join sep [x] = x"
| "join sep (x # y # ys) = x @ sep @ join sep (y # ys)"

definition with_model_name :: "args \<Rightarrow> string \<Rightarrow> string" where
  "with_model_name a n = (if model_name a \<noteq> ''MTLucifer'' then model_name a @ ''_'' @ n else n)"

definition num_models_to_train :: "args \<Rightarrow> bool \<Rightarrow> int" where
  "num_models_to_train a finetune =
     (if py_in ''pretrain'' (modelling_strategy a) \<and> \<not> finetune then 1 else num_random_seeds a)"

definition seed_range :: "args \<Rightarrow> bool \<Rightarrow> nat list" where
  \<comment> \<open>\<open>range(num_models_to_train)\<close>\<close>
  "seed_range a finetune = [0 ..< nat (num_models_to_train a finetune)]"

definition simple_regression :: "args \<Rightarrow> bool \<Rightarrow> bool" where
  "simple_regression a finetune =
     ((modelling_strategy a = ''pretrain+simple_regression'' \<and> finetune)
      \<or> modelling_strategy a = ''single_task_simple_regression'')"

definition name_format :: "args \<Rightarrow> bool \<Rightarrow> string list \<Rightarrow> string list \<Rightarrow> string" where
  "name_format a finetune tasks pretrain_task_list =
     (let ms = modelling_strategy a;
          n0 =
            (if py_in ''pretrain'' ms \<and> finetune then
               (let n1 = (if py_in ''finetune'' ms
                          then ''finetune_on_'' @ join ''+'' tasks @ ''_pretrained_on_''
                                 @ join ''+'' pretrain_task_list
                          else []);
                    n2 = (if py_in ''linear_probing'' ms
                          then ''linear_probing_on_'' @ join ''+'' tasks @ ''_pretrained_on_''
                                 @ join ''+'' pretrain_task_list
                          else n1)
                in if py_in ''simple_regression'' ms
                   then ''simple_regression_on_'' @ join ''+'' tasks @ ''_pretrained_on_''
                          @ join ''+'' pretrain_task_list
                   else n2)
             else if py_in ''pretrain'' ms \<and> \<not> finetune then ''pretrain_on_'' @ join ''+'' tasks
             else if py_in ''joint'' ms then ''joint_train_on_'' @ join ''+'' tasks
             else if py_in ''single'' ms then
               (if py_in ''simple_regression'' ms then ''simple_regression_on_'' @ join ''+'' tasks
                else ''individual_training_on_'' @ join ''+'' tasks)
             else []);
          n3 = with_model_name a n0
      in case optional_name_suffix a of
           None \<Rightarrow> n3
         | Some name_suffix \<Rightarrow>
             if py_in ''pretrain'' ms then (if finetune then n3 @ ''_'' @ name_suffix else n3)
             else n3 @ ''_'' @ name_suffix)"

definition run_name :: "args \<Rightarrow> bool \<Rightarrow> string \<Rightarrow> nat \<Rightarrow> string" where
  "run_name a finetune nf seed =
     (if 1 < num_models_to_train a finetune then nf @ ''_dl_seed_'' @ digits_of seed else nf)"

subsection \<open>One iteration of the seed loop\<close>

definition use_existing :: "args \<Rightarrow> world \<Rightarrow> string \<Rightarrow> string \<Rightarrow> bool" where
  \<comment> \<open>the flag \<open>check\<close>\<close>
  "use_existing a w model_save_dir name =
     (if use_existing_models a then
        (if path_exists w (path_join model_save_dir [name, ''default'', ''checkpoints''])
         then path_exists w (path_join model_save_dir [name, ''default'', ''done.txt''])
         else False)
      else False)"

definition write_done :: "string \<Rightarrow> world \<Rightarrow> world" where
  "write_done done_file w = emit (WriteDone done_file) (w\<lparr>existing := done_file # existing w\<rparr>)"

definition run_seed ::
  "env \<Rightarrow> args \<Rightarrow> bool \<Rightarrow> string \<Rightarrow> string \<Rightarrow> string \<Rightarrow> nat \<Rightarrow> world \<Rightarrow> (error + unit) \<times> world" where
  "run_seed en a finetune model_save_dir direction nf seed w =
     (let name = run_name a finetune nf seed;
          cur_models_save_dir = path_join model_save_dir [name, ''default'', ''checkpoints''];
          done_file = path_join model_save_dir [name, ''default'', ''done.txt'']
      in if use_existing a w model_save_dir name then
           (let w1 = emit (Print ''Using existing models and evaluating them'') w
            in if simple_regression a finetune then
                 (case fit_error en name of
                    Some e \<Rightarrow> (Inl e, emit (FitSimpleRegression name) w1)
                  | None \<Rightarrow> (Inr (), emit (Predict name) (emit (FitSimpleRegression name) w1)))
               else
                 (case best_existing_model direction (listdir en cur_models_save_dir) of
                    Inl e \<Rightarrow> (Inl e, w1)
                  | Inr (best_model_path, best_metric) \<Rightarrow>
                      (Inr (), emit (Predict name)
                         (emit (LoadCheckpoint (path_join cur_models_save_dir [best_model_path]))
                            w1))))
         else
           (let w1 = emit (Print ''Training model'') w
            in if simple_regression a finetune then
                 (case fit_error en name of
                    Some e \<Rightarrow> (Inl e, emit (FitSimpleRegression name) w1)
                  | None \<Rightarrow>
                      (Inr (), emit (Predict name)
                         (write_done done_file
                            (makedirs (path_join model_save_dir [name, ''default''])
                               (emit (FitSimpleRegression name) w1)))))
               else
                 (case fit_error en name of
                    Some e \<Rightarrow> (Inl e, emit (TrainerFit name) w1)
                  | None \<Rightarrow>
                      (Inr (), emit (Predict name)
                         (write_done done_file (emit (TrainerFit name) w1))))))"

fun seed_loop ::
  "(nat \<Rightarrow> world \<Rightarrow> (error + unit) \<times> world) \<Rightarrow> nat list \<Rightarrow> world \<Rightarrow> (error + unit) \<times> world" where
  "seed_loop body [] w = (Inr (), w)"
| "seed_loop body (seed # seeds) w =
     (case body seed w of
        (Inl e, w') \<Rightarrow> (Inl e, w')
      | (Inr u, w') \<Rightarrow> seed_loop body seeds w')"

subsection \<open>The whole function\<close>

definition load_pretrained ::
  "env \<Rightarrow> args \<Rightarrow> bool \<Rightarrow> string \<Rightarrow> string list option \<Rightarrow> world \<Rightarrow> (error + unit) \<times> world" where
  "load_pretrained en a finetune model_save_dir pretrain_task_list w =
     (if py_in ''pretrain'' (modelling_strategy a) \<and> finetune then
        (let w1 = emit (Print ''Loading pre-trained model state dict'') w
         in case pretrain_task_list of
              None \<Rightarrow> (Inl (NameError ''pretrain_tasks''), w1)
            | Some pts \<Rightarrow>
                (let pretrained_model_save_dir =
                       path_join model_save_dir
                         [with_model_name a (''pretrain_on_'' @ join ''+'' pts), ''default'',
                          ''checkpoints'']
                 in case best_pretrained_model (pretrain_metric_direction_which_is_optimal a)
                           (listdir en pretrained_model_save_dir) of
                      Inl e \<Rightarrow> (Inl e, w1)
                    | Inr (best_model_path, best_metric) \<Rightarrow>
                        (Inr (), emit (LoadCheckpoint
                                   (path_join pretrained_model_save_dir [best_model_path])) w1)))
      else (Inr (), w))"

definition train_model :: "env \<Rightarrow> args \<Rightarrow> config \<Rightarrow> bool \<Rightarrow> world \<Rightarrow> (error + unit) \<times> world" where
  "train_model en a cfg finetune w0 =
     (let w1 = create_directories cfg w0;
          model_save_dir = path_join (root_dir cfg) [''saved_models'']
      in case setup_tasks a finetune of
           Inl e \<Rightarrow> (Inl e, w1)
         | Inr (tasks, pretrain_task_list) \<Rightarrow>
             (case check_motif_based a tasks of
                Inl e \<Rightarrow> (Inl e, w1)
              | Inr u \<Rightarrow>
                  (case load_pretrained en a finetune model_save_dir pretrain_task_list w1 of
                     (Inl e, w2) \<Rightarrow> (Inl e, w2)
                   | (Inr u, w2) \<Rightarrow>
                       (let direction =
                              (if py_in ''pretrain'' (modelling_strategy a) \<and> \<not> finetune
                               then pretrain_metric_direction_which_is_optimal a
                               else metric_direction_which_is_optimal a);
                            nf = name_format a finetune tasks
                                   (case pretrain_task_list of None \<Rightarrow> [] | Some pts \<Rightarrow> pts);
                            w3 = foldl (\<lambda>w t. emit (InstantiateDataloaders t) w) w2 tasks
                        in seed_loop (run_seed en a finetune model_save_dir direction nf)
                             (seed_range a finetune) w3))))"

section \<open>Evaluation on the test set\<close>

text \<open>
  For each output column of a dataloader the script takes the column of targets and the
  column of predictions and hands them to the metric functions of the libraries. The
  functions of this section compute what is printed and what is handed over; the metric
  functions themselves are not part of the script.
\<close>

datatype eval_branch = ClassificationMetrics | RegressionMetrics | NoFluorescenceMetrics

definition eval_branch_of :: "string \<Rightarrow> string \<Rightarrow> eval_branch" where
  \<comment> \<open>the branch taken for the dataloader named \<open>dl\<close> in a run named \<open>nf\<close>\<close>
  "eval_branch_of dl nf =
     (if py_in ''Fluorescence'' dl \<and> py_in ''classification'' dl then ClassificationMetrics
      else if (py_in ''Fluorescence'' dl \<or> py_in ''MalinoisMPRA'' dl)
              \<and> (py_in ''joint_'' nf \<or> py_in ''finetune_'' nf \<or> py_in ''linear_probing_'' nf
                   \<or> py_in ''individual_'' nf \<or> py_in ''simple_regression_'' nf)
           then RegressionMetrics
      else NoFluorescenceMetrics)"

fun nan_to_num :: "rat \<Rightarrow> pyfloat \<Rightarrow> pyfloat" where
  \<comment> \<open>\<open>np.nan_to_num\<close>; the first argument is the largest finite value of the dtype\<close>
  "nan_to_num fmax NaN = Fin 0"
| "nan_to_num fmax PosInf = Fin fmax"
| "nan_to_num fmax NegInf = Fin (- fmax)"
| "nan_to_num fmax (Fin q) = Fin q"

fun float_ne :: "pyfloat \<Rightarrow> pyfloat \<Rightarrow> bool" where
  \<comment> \<open>\<open>!=\<close> on floats\<close>
  "float_ne NaN _ = True"
| "float_ne _ NaN = True"
| "float_ne a b = (a \<noteq> b)"

definition metric_inputs ::
  "rat \<Rightarrow> string \<Rightarrow> string \<Rightarrow> string \<Rightarrow> pyfloat list \<Rightarrow> pyfloat list
     \<Rightarrow> (string list \<times> pyfloat list \<times> pyfloat list) option" where
  \<comment> \<open>the lines printed before the metrics, the targets and the predictions that go on
      to the metric functions (in the classification branch through sigmoid and
      rounding); None when no per-output metric is computed\<close>
  "metric_inputs fmax dl nf output cur_y cur_pred =
     (case eval_branch_of dl nf of
        ClassificationMetrics \<Rightarrow>
          if list_ex isnan cur_pred
          then Some ([''WARNING: Nans in pred, replacing with 0''], cur_y,
                     map (nan_to_num fmax) cur_pred)
          else Some ([], cur_y, cur_pred)
      | RegressionMetrics \<Rightarrow>
          if py_in ''MalinoisMPRA'' dl then
            (let kept = filter (\<lambda>yp. float_ne (fst yp) (Fin (- 100000))) (zip cur_y cur_pred)
             in Some ([''Cell '' @ output @ '' has '' @ digits_of (length kept) @ '' valid values''],
                      map fst kept, map snd kept))
          else Some ([], cur_y, cur_pred)
      | NoFluorescenceMetrics \<Rightarrow> None)"

section \<open>The summary of a run\<close>

text \<open>
  The per-seed values of every metric are kept in dictionaries from output column to
  list of values; a dictionary is an association list in insertion order. The functions
  of numpy that aggregate and round are parameters.
\<close>

type_synonym pydict = "(string \<times> pyfloat list) list"

datatype json = JList "pyfloat list" | JFloat pyfloat | JStr string

type_synonym summary = "string \<Rightarrow> json option"

record numpy =
  average :: "pyfloat list \<Rightarrow> pyfloat"
  std :: "pyfloat list \<Rightarrow> pyfloat"
  around4 :: "pyfloat \<Rightarrow> string"

record seed_metrics =
  all_seeds_accuracy :: pydict
  all_seeds_precision :: pydict
  all_seeds_recall :: pydict
  all_seeds_f1 :: pydict
  all_seeds_highly_expressed_accuracy :: pydict
  all_seeds_highly_expressed_precision :: pydict
  all_seeds_highly_expressed_recall :: pydict
  all_seeds_highly_expressed_f1 :: pydict
  all_seeds_lowly_expressed_accuracy :: pydict
  all_seeds_r2 :: pydict
  all_seeds_pearsonr :: pydict
  all_seeds_srho :: pydict
  all_seeds_replicate_concordance_pearsonr :: pydict
  all_seeds_replicate_concordance_srho :: pydict

definition getitem :: "pydict \<Rightarrow> string \<Rightarrow> error + pyfloat list" where
  "getitem d k = (case map_of d k of None \<Rightarrow> Inl (KeyError k) | Some v \<Rightarrow> Inr v)"

fun lookup_families :: "(string \<times> pydict) list \<Rightarrow> string \<Rightarrow> error + (string \<times> pyfloat list) list" where
  "lookup_families [] output = Inr []"
| "lookup_families ((fam, d) # fams) output =
     (case getitem d output of
        Inl e \<Rightarrow> Inl e
      | Inr v \<Rightarrow>
          (case lookup_families fams output of
             Inl e \<Rightarrow> Inl e
           | Inr vs \<Rightarrow> Inr ((fam, v) # vs)))"

datatype kind = All | Avg | Std | Disp

fun key_suffix :: "kind \<Rightarrow> string \<Rightarrow> string" where
  "key_suffix All fam = ''_all_'' @ fam"
| "key_suffix Avg fam = ''_avg_'' @ fam"
| "key_suffix Std fam = ''_std_'' @ fam"
| "key_suffix Disp fam = ''_avg_'' @ fam @ ''_disp''"

fun entry_value :: "numpy \<Rightarrow> kind \<Rightarrow> pyfloat list \<Rightarrow> json" where
  "entry_value np All xs = JList xs"
| "entry_value np Avg xs = JFloat (average np xs)"
| "entry_value np Std xs = JFloat (std np xs)"
| "entry_value np Disp xs =
     JStr (around4 np (average np xs) @ '' +- '' @ around4 np (std np xs))"

definition iteration_writes :: "numpy \<Rightarrow> string \<Rightarrow> (string \<times> pyfloat list) list \<Rightarrow> (string \<times> json) list" where
  \<comment> \<open>the assignments of one iteration, in the order of the script: the lists of every
      family, then the averages, the deviations and the display strings\<close>
  "iteration_writes np output fvs =
     concat (map (\<lambda>kd. map (\<lambda>fv. (output @ key_suffix kd (fst fv), entry_value np kd (snd fv))) fvs)
               [All, Avg, Std, Disp])"

definition assign :: "summary \<Rightarrow> (string \<times> json) list \<Rightarrow> summary" where
  "assign s kvs = foldl (\<lambda>m kv. m(fst kv \<mapsto> snd kv)) s kvs"

fun summary_loop ::
  "numpy \<Rightarrow> (string \<times> pydict) list \<Rightarrow> string list \<Rightarrow> summary \<Rightarrow> error + summary" where
  "summary_loop np fams [] s = Inr s"
| "summary_loop np fams (output # outputs) s =
     (case lookup_families fams output of
        Inl e \<Rightarrow> Inl e
      | Inr fvs \<Rightarrow> summary_loop np fams outputs (assign s (iteration_writes np output fvs)))"

definition classification_families :: "seed_metrics \<Rightarrow> (string \<times> pydict) list" where
  "classification_families m =
     [(''Accuracy'', all_seeds_accuracy m), (''Precision'', all_seeds_precision m),
      (''Recall'', all_seeds_recall m), (''F1'', all_seeds_f1 m)]"

definition highly_expressed_families :: "seed_metrics \<Rightarrow> (string \<times> pydict) list" where
  "highly_expressed_families m =
     [(''Accuracy_highly_expressed'', all_seeds_highly_expressed_accuracy m),
      (''Precision_highly_expressed'', all_seeds_highly_expressed_precision m),
      (''Recall_highly_expressed'', all_seeds_highly_expressed_recall m),
      (''F1_highly_expressed'', all_seeds_highly_expressed_f1 m)]"

definition lowly_expressed_families :: "seed_metrics \<Rightarrow> (string \<times> pydict) list" where
  "lowly_expressed_families m =
     [(''Accuracy_lowly_expressed'', all_seeds_lowly_expressed_accuracy m)]"

definition regression_families :: "seed_metrics \<Rightarrow> (string \<times> pydict) list" where
  "regression_families m =
     [(''R2'', all_seeds_r2 m), (''PearsonR'', all_seeds_pearsonr m),
      (''SpearmanR'', all_seeds_srho m)]"

definition replicate_families :: "seed_metrics \<Rightarrow> (string \<times> pydict) list" where
  "replicate_families m =
     [(''ReplicateConcordancePearsonR'', all_seeds_replicate_concordance_pearsonr m),
      (''ReplicateConcordanceSpearmanR'', all_seeds_replicate_concordance_srho m)]"

definition build_summary :: "numpy \<Rightarrow> seed_metrics \<Rightarrow> bool \<Rightarrow> summary \<Rightarrow> error + summary option" where
  \<comment> \<open>the dictionary that is dumped as JSON, or None when nothing is saved; the flag says
      whether \<open>FluorescenceData\<close> is among the dataloaders; the last argument is
      \<open>vars(args)\<close>\<close>
  "build_summary np m fluorescence s0 =
     (if 0 < length (all_seeds_r2 m) \<or> 0 < length (all_seeds_accuracy m) then
        (case summary_loop np (classification_families m) (map fst (all_seeds_accuracy m)) s0 of
           Inl e \<Rightarrow> Inl e
         | Inr s1 \<Rightarrow>
        (case summary_loop np (highly_expressed_families m)
                (map fst (all_seeds_highly_expressed_accuracy m)) s1 of
           Inl e \<Rightarrow> Inl e
         | Inr s2 \<Rightarrow>
        (case summary_loop np (lowly_expressed_families m)
                (map fst (all_seeds_lowly_expressed_accuracy m)) s2 of
           Inl e \<Rightarrow> Inl e
         | Inr s3 \<Rightarrow>
        (case summary_loop np (regression_families m) (map fst (all_seeds_r2 m)) s3 of
           Inl e \<Rightarrow> Inl e
         | Inr s4 \<Rightarrow>
        (case (if fluorescence
               then summary_loop np (replicate_families m)
                      (map fst (all_seeds_replicate_concordance_srho m)) s4
               else Inr s4) of
           Inl e \<Rightarrow> Inl e
         | Inr s5 \<Rightarrow> Inr (Some s5))))))
      else Inr None)"

definition all_families :: "seed_metrics \<Rightarrow> (string \<times> pydict) list" where
  "all_families m =
     classification_families m @ highly_expressed_families m @ lowly_expressed_families m
       @ regression_families m @ replicate_families m"

definition family_names :: "string list" where
  "family_names =
     [''Accuracy'', ''Precision'', ''Recall'', ''F1'',
      ''Accuracy_highly_expressed'', ''Precision_highly_expressed'',
      ''Recall_highly_expressed'', ''F1_highly_expressed'', ''Accuracy_lowly_expressed'',
      ''R2'', ''PearsonR'', ''SpearmanR'',
      ''ReplicateConcordancePearsonR'', ''ReplicateConcordanceSpearmanR'']"

definition all_suffixes :: "(kind \<times> string) list" where
  "all_suffixes = List.product [All, Avg, Std, Disp] family_names"

definition written :: "numpy \<Rightarrow> (string \<times> pydict) list \<Rightarrow> string \<Rightarrow> json \<Rightarrow> bool" where
  \<comment> \<open>some iteration over the families assigns \<open>v\<close> to the key \<open>k\<close>\<close>
  "written np fams k v =
     (\<exists>out fam d xs kd. (fam, d) \<in> set fams \<and> map_of d out = Some xs
        \<and> k = out @ key_suffix kd fam \<and> v = entry_value np kd xs)"

subsection \<open>A concrete run\<close>

definition example_args :: "string \<Rightarrow> args" where
  "example_args strategy =
     \<lparr>modelling_strategy = strategy, model_name = ''MTLucifer'',
      joint_tasks = Some ''FluorescenceData'', pretrain_tasks = Some ''LL100,CCLE'',
      finetune_tasks = Some ''FluorescenceData'', single_task = Some ''LL100'',
      num_random_seeds = 3, use_existing_models = True,
      metric_direction_which_is_optimal = ''max'',
      pretrain_metric_direction_which_is_optimal = ''min'', optional_name_suffix = None\<rparr>"

definition example_env :: "error option \<Rightarrow> env" where
  "example_env fit_outcome =
     \<lparr>listdir = (\<lambda>d. [''best-epoch=01-val_loss=0.50000.ckpt'',
                       ''best-epoch=02-val_loss=0.25000-v1.ckpt'']),
      fit_error = (\<lambda>name. fit_outcome)\<rparr>"

definition example_config :: config where
  "example_config = \<lparr>root_dir = ''out'', root_data_dir = ''data''\<rparr>"

definition empty_world :: world where
  "empty_world = \<lparr>existing = [], log = []\<rparr>"

definition trained_world :: world where
  "trained_world =
     \<lparr>existing = [''out/saved_models/joint_train_on_FluorescenceData_dl_seed_0/default/checkpoints'',
                  ''out/saved_models/joint_train_on_FluorescenceData_dl_seed_0/default/done.txt''],
      log = []\<rparr>"

definition example_numpy :: numpy where
  \<comment> \<open>an instance of the library functions, right on lists of equal values\<close>
  "example_numpy =
     \<lparr>average = (\<lambda>xs. case xs of [] \<Rightarrow> NaN | x # r \<Rightarrow> x),
      std = (\<lambda>xs. case xs of [] \<Rightarrow> NaN | x # r \<Rightarrow> Fin 0),
      around4 = format_5f\<rparr>"

definition example_metrics :: seed_metrics where
  "example_metrics =
     \<lparr>all_seeds_accuracy = [(''JURKAT'', [Fin 1, Fin 1])],
      all_seeds_precision = [(''JURKAT'', [Fin 1, Fin 1])],
      all_seeds_recall = [(''JURKAT'', [Fin 1, Fin 1])],
      all_seeds_f1 = [(''JURKAT'', [Fin 1, Fin 1])],
      all_seeds_highly_expressed_accuracy = [(''JURKAT'', [Fin 1, Fin 1])],
      all_seeds_highly_expressed_precision = [(''JURKAT'', [Fin 1, Fin 1])],
      all_seeds_highly_expressed_recall = [(''JURKAT'', [Fin 1, Fin 1])],
      all_seeds_highly_expressed_f1 = [(''JURKAT'', [Fin 1, Fin 1])],
      all_seeds_lowly_expressed_accuracy = [(''JURKAT'', [Fin 1, Fin 1])],
      all_seeds_r2 = [(''K562'', [Fin (1 / 2), Fin (1 / 2)])],
      all_seeds_pearsonr = [(''K562'', [Fin (1 / 2), Fin (1 / 2)])],
      all_seeds_srho = [(''K562'', [Fin (1 / 2), Fin (1 / 2)])],
      all_seeds_replicate_concordance_pearsonr = [(''K562'', [Fin (1 / 2), Fin (1 / 2)])],
      all_seeds_replicate_concordance_srho = [(''K562'', [Fin (1 / 2), Fin (1 / 2)])]\<rparr>"

section \<open>Properties of the checkpoint selection\<close>

subsection \<open>Digits and parsing\<close>

lemma digit_char_is_digit: "d < 10 \<Longrightarrow> is_digit (digit_char d)"
proof -
  assume "d < 10"
  then have "d \<in> {0,1,2,3,4,5,6,7,8,9}" by auto
  then show ?thesis by (auto simp: is_digit_def digit_char_def)
qed

lemma digit_val_digit_char: "d < 10 \<Longrightarrow> digit_val (digit_char d) = d"
proof -
  assume "d < 10"
  then have "d \<in> {0,1,2,3,4,5,6,7,8,9}" by auto
  then show ?thesis by (auto simp: digit_val_def digit_char_def)
qed

lemma digits_of_nonempty: "digits_of n \<noteq> []"
  by (subst digits_of.simps) simp

lemma digits_of_digits: "c \<in> set (digits_of n) \<Longrightarrow> is_digit c"
proof (induction n arbitrary: c rule: digits_of.induct)
  case (1 n)
  show ?case
  proof (cases "n < 10")
    case True
    with "1.prems" show ?thesis
      by (subst (asm) digits_of.simps) (simp add: digit_char_is_digit)
  next
    case False
    with "1.prems" have "c \<in> set (digits_of (n div 10)) \<or> c = digit_char (n mod 10)"
      by (subst (asm) digits_of.simps) auto
    then show ?thesis using "1.IH" [OF False] by (auto simp: digit_char_is_digit)
  qed
qed

lemma nat_of_digits_snoc: "nat_of_digits (xs @ [c]) = 10 * nat_of_digits xs + digit_val c"
  by (simp add: nat_of_digits_def)

lemma nat_of_digits_append:
  "nat_of_digits (xs @ ys) = nat_of_digits xs * 10 ^ length ys + nat_of_digits ys"
proof (induction ys rule: rev_induct)
  case Nil
  then show ?case by (simp add: nat_of_digits_def)
next
  case (snoc y ys)
  have "nat_of_digits (xs @ ys @ [y]) = 10 * nat_of_digits (xs @ ys) + digit_val y"
    using nat_of_digits_snoc [of "xs @ ys" y] by simp
  then show ?case by (simp add: snoc.IH nat_of_digits_snoc algebra_simps)
qed

lemma nat_of_digits_digits_of: "nat_of_digits (digits_of n) = n"
proof (induction n rule: digits_of.induct)
  case (1 n)
  show ?case
  proof (cases "n < 10")
    case True
    then show ?thesis
      by (subst digits_of.simps) (simp add: nat_of_digits_def digit_val_digit_char)
  next
    case False
    then show ?thesis using "1.IH" [OF False]
      by (subst digits_of.simps) (simp add: nat_of_digits_snoc digit_val_digit_char)
  qed
qed

lemma nat_of_digits_zeros: "nat_of_digits (replicate k (CHR ''0'')) = 0"
  by (induction k) (simp_all add: nat_of_digits_def digit_val_def)

lemma length_digits_of: "n < 10 ^ k \<Longrightarrow> 0 < k \<Longrightarrow> length (digits_of n) \<le> k"
proof (induction n arbitrary: k rule: digits_of.induct)
  case (1 n)
  show ?case
  proof (cases "n < 10")
    case True
    then show ?thesis using "1.prems" by (subst digits_of.simps) simp
  next
    case False
    then obtain j where k: "k = Suc j" using "1.prems" by (cases k) auto
    with False "1.prems" have j: "0 < j" by (cases j) auto
    from "1.prems" k have "n div 10 < 10 ^ j" by (simp add: less_mult_imp_div_less mult.commute)
    from "1.IH" [OF False this j] show ?thesis using False k
      by (subst digits_of.simps) simp
  qed
qed

lemma takeWhile_digits_stop:
  "\<forall>c\<in>set ds. is_digit c \<Longrightarrow> rest = [] \<or> \<not> is_digit (hd rest) \<Longrightarrow>
     takeWhile is_digit (ds @ rest) = ds \<and> dropWhile is_digit (ds @ rest) = rest"
proof (induction ds)
  case Nil
  then show ?case by (cases rest) auto
next
  case (Cons d ds)
  then show ?case by simp
qed

lemma not_digit_point: "\<not> is_digit (CHR ''.'')"
  by (simp add: is_digit_def)

lemma parse_exponent_Nil: "parse_exponent [] = (0, [])"
  by (simp add: parse_exponent_def)

lemma parse_number_decimal:
  assumes ip: "\<forall>c\<in>set ip. is_digit c" and fp: "\<forall>c\<in>set fp. is_digit c" and ne: "ip \<noteq> []"
  shows "parse_number (ip @ ''.'' @ fp)
           = Some (of_nat (nat_of_digits (ip @ fp)) * pow10 (- int (length fp)), [])"
proof -
  have a: "takeWhile is_digit (ip @ ''.'' @ fp) = ip" "dropWhile is_digit (ip @ ''.'' @ fp) = ''.'' @ fp"
    using takeWhile_digits_stop [OF ip, of "''.'' @ fp"] not_digit_point by simp_all
  have b: "takeWhile is_digit fp = fp" "dropWhile is_digit fp = []"
    using takeWhile_digits_stop [OF fp, of "[]"] by simp_all
  show ?thesis
    unfolding parse_number_def a by (simp add: b ne parse_exponent_Nil)
qed

lemma parse_number_no_digit:
  "s = [] \<or> (\<not> is_digit (hd s) \<and> hd s \<noteq> CHR ''.'') \<Longrightarrow> parse_number s = None"
  by (cases s) (auto simp: parse_number_def)

lemma split_chr_nonempty: "split_chr sep s \<noteq> []"
  by (induction s) (auto simp: neq_Nil_conv elim: cons_first.elims)

lemma cons_first_nonempty: "cons_first c xs \<noteq> []"
  by (cases xs) auto

lemma split_chr_no_sep: "sep \<notin> set t \<Longrightarrow> split_chr sep t = [t]"
  by (induction t) auto

lemma last_cons_first: "2 \<le> length xs \<Longrightarrow> last (cons_first c xs) = last xs"
  by (cases xs) auto

lemma length_split_chr_sep: "sep \<in> set s \<Longrightarrow> 2 \<le> length (split_chr sep s)"
proof (induction s)
  case Nil
  then show ?case by simp
next
  case (Cons c s)
  show ?case
  proof (cases "c = sep")
    case True
    then show ?thesis using split_chr_nonempty [of sep s]
      by (cases "split_chr sep s") auto
  next
    case False
    with Cons have "2 \<le> length (split_chr sep s)" by simp
    then show ?thesis using False by (cases "split_chr sep s") auto
  qed
qed

lemma last_split_chr:
  "sep \<notin> set t \<Longrightarrow> last (split_chr sep (s @ sep # t)) = t"
proof (induction s)
  case Nil
  then show ?case by (simp add: split_chr_no_sep)
next
  case (Cons c s)
  show ?case
  proof (cases "c = sep")
    case True
    then show ?thesis using Cons split_chr_nonempty [of sep "s @ sep # t"] by simp
  next
    case False
    have "2 \<le> length (split_chr sep (s @ sep # t))"
      by (rule length_split_chr_sep) simp
    then show ?thesis using False Cons by (simp add: last_cons_first)
  qed
qed

lemma not_py_in_dash_v: "CHR ''v'' \<notin> set t \<Longrightarrow> \<not> py_in ''-v'' t"
proof (induction t)
  case Nil
  then show ?case by simp
next
  case (Cons c t)
  then show ?case by (cases t) (auto simp: startswith_def)
qed

lemma remove_underscores_none:
  "CHR ''_'' \<notin> set t \<Longrightarrow> prev \<noteq> CHR ''_'' \<Longrightarrow> remove_underscores prev t = Some t"
  by (induction t arbitrary: prev) auto

lemma strip_id:
  "s \<noteq> [] \<Longrightarrow> \<not> is_space (hd s) \<Longrightarrow> \<not> is_space (last s) \<Longrightarrow> strip s = s"
proof -
  assume a: "s \<noteq> []" "\<not> is_space (hd s)" "\<not> is_space (last s)"
  then have "dropWhile is_space s = s" by (cases s) auto
  moreover have "dropWhile is_space (rev s) = rev s"
    using a by (cases "rev s") (auto simp: last_rev [symmetric] hd_rev)
  ultimately show ?thesis by (simp add: strip_def)
qed

lemma drop_last_append: "length t = n \<Longrightarrow> drop_last n (s @ t) = s"
  by (simp add: drop_last_def)

lemma round_half_even_nonneg: "0 \<le> x \<Longrightarrow> 0 \<le> round_half_even x"
  by (auto simp: round_half_even_def Let_def)

lemma round_half_even_nonpos: "x \<le> 0 \<Longrightarrow> round_half_even x \<le> 0"
proof -
  assume x: "x \<le> 0"
  show ?thesis
  proof (cases "\<lfloor>x\<rfloor> = 0")
    case True
    then have "0 \<le> x" by (metis of_int_0 of_int_floor_le)
    with x have "x = 0" by simp
    then show ?thesis by (simp add: round_half_even_def)
  next
    case False
    moreover have "\<lfloor>x\<rfloor> \<le> 0" using x by (simp add: floor_le_zero)
    ultimately have "\<lfloor>x\<rfloor> + 1 \<le> 0" by linarith
    then show ?thesis by (auto simp: round_half_even_def Let_def)
  qed
qed

lemma digit_facts:
  "is_digit c \<Longrightarrow> \<not> is_space c \<and> c \<noteq> CHR ''-'' \<and> c \<noteq> CHR ''+'' \<and> c \<noteq> CHR ''_''
      \<and> c \<noteq> CHR ''='' \<and> c \<noteq> CHR ''v'' \<and> c \<noteq> CHR ''.''"
  by (auto simp: is_digit_def is_space_def)

lemma is_digit_zero: "is_digit (CHR ''0'')"
  by (simp add: is_digit_def)

lemma frac5_digits: "c \<in> set (frac5 m) \<Longrightarrow> is_digit c"
  by (auto simp: frac5_def digits_of_digits is_digit_zero)

lemma py_float_steps:
  "strip s = s \<Longrightarrow> remove_underscores (CHR ''x'') s = Some s \<Longrightarrow> split_sign s = (neg, body)
     \<Longrightarrow> parse_number body = Some (q, []) \<Longrightarrow>
   py_float s = Inr (to_double (if neg then - q else q))"
  by (simp add: py_float_def)

lemma length_frac5: "m < 100000 \<Longrightarrow> length (frac5 m) = 5"
  using length_digits_of [of m 5] by (simp add: frac5_def)

lemma nat_of_digits_frac5: "nat_of_digits (frac5 m) = m"
  by (simp add: frac5_def nat_of_digits_append nat_of_digits_zeros nat_of_digits_digits_of)

lemma frac5_nonempty: "frac5 m \<noteq> []"
  by (simp add: frac5_def digits_of_nonempty)

lemma py_float_decimal:
  assumes m: "m < 100000"
  shows "py_float ((if neg then ''-'' else []) @ digits_of a @ ''.'' @ frac5 m)
           = Inr (to_double (if neg then - (of_nat (a * 100000 + m) / 100000)
                             else of_nat (a * 100000 + m) / 100000))"
proof -
  let ?body = "digits_of a @ ''.'' @ frac5 m"
  let ?s = "(if neg then ''-'' else []) @ ?body"
  have dig: "\<forall>c\<in>set (digits_of a). is_digit c" "\<forall>c\<in>set (frac5 m). is_digit c"
    using digits_of_digits frac5_digits by blast+
  have hd_body: "is_digit (hd ?body)"
    using digits_of_nonempty [of a] dig(1) by (cases "digits_of a") auto
  have last_body: "is_digit (last ?body)"
    using frac5_nonempty [of m] dig(2) by (simp add: last_append)
  have ne: "?s \<noteq> []" using digits_of_nonempty by simp
  have hd_s: "\<not> is_space (hd ?s)"
    using hd_body digit_facts by (cases neg) (auto simp: is_space_def)
  have last_s: "\<not> is_space (last ?s)"
    using last_body digit_facts frac5_nonempty [of m] by (simp add: last_append)
  have strip: "strip ?s = ?s" using strip_id [OF ne hd_s last_s] .
  have "CHR ''_'' \<notin> set ?s" using dig digit_facts by (auto split: if_splits)
  then have ru: "remove_underscores (CHR ''x'') ?s = Some ?s"
    by (rule remove_underscores_none) simp
  have sign: "split_sign ?s = (neg, ?body)"
  proof (cases neg)
    case True
    then show ?thesis by (simp add: split_sign_def)
  next
    case False
    obtain c r where cr: "?body = c # r" using digits_of_nonempty [of a]
      by (cases "digits_of a") auto
    with hd_body have "is_digit c" by simp
    with digit_facts have "c \<noteq> CHR ''-''" "c \<noteq> CHR ''+''" by blast+
    with False cr show ?thesis by (simp add: split_sign_def)
  qed
  have pn: "parse_number ?body
      = Some (of_nat (nat_of_digits (digits_of a @ frac5 m)) * pow10 (- int (length (frac5 m))), [])"
    using parse_number_decimal [OF dig digits_of_nonempty] .
  have val: "of_nat (nat_of_digits (digits_of a @ frac5 m)) * pow10 (- int (length (frac5 m)))
      = (of_nat (a * 100000 + m) / 100000 :: rat)"
    by (simp add: nat_of_digits_append nat_of_digits_digits_of nat_of_digits_frac5
        length_frac5 [OF m] pow10_def)
  have pn': "parse_number ?body = Some (of_nat (a * 100000 + m) / 100000, [])"
    using pn unfolding val .
  show ?thesis
    using py_float_steps [OF strip ru sign pn'] by (cases neg) simp_all
qed

lemma format_5f_Fin:
  "format_5f (Fin q) = (if q < 0 then ''-'' else [])
      @ digits_of (nat \<bar>round_half_even (q * 100000)\<bar> div 100000) @ ''.''
      @ frac5 (nat \<bar>round_half_even (q * 100000)\<bar> mod 100000)"
  by (simp add: format_5f_def Let_def)

lemma py_float_format_5f: "py_float (format_5f x) = Inr (round5 x)"
proof (cases x)
  case NaN
  have "py_float ''nan'' = Inr NaN" by code_simp
  then show ?thesis using NaN by (simp add: format_5f_def round5_def)
next
  case NegInf
  have "py_float ''-inf'' = Inr NegInf" by code_simp
  then show ?thesis using NegInf by (simp add: format_5f_def round5_def)
next
  case PosInf
  have "py_float ''inf'' = Inr PosInf" by code_simp
  then show ?thesis using PosInf by (simp add: format_5f_def round5_def)
next
  case (Fin q)
  let ?r = "round_half_even (q * 100000)"
  let ?n = "nat \<bar>?r\<bar>"
  have m: "?n mod 100000 < 100000" by simp
  have n: "?n div 100000 * 100000 + ?n mod 100000 = ?n" by simp
  have eq: "(if q < 0 then - (of_nat ?n / 100000) else of_nat ?n / 100000) = (of_int ?r / 100000 :: rat)"
  proof (cases "q < 0")
    case True
    then have "?r \<le> 0" by (intro round_half_even_nonpos) (simp add: mult_le_0_iff)
    then have "(of_nat ?n :: rat) = - of_int ?r" by simp
    with True show ?thesis by simp
  next
    case False
    then have "0 \<le> ?r" by (intro round_half_even_nonneg) simp
    then have "(of_nat ?n :: rat) = of_int ?r" by simp
    with False show ?thesis by simp
  qed
  have "py_float (format_5f (Fin q))
      = Inr (to_double (if q < 0 then - (of_nat (?n div 100000 * 100000 + ?n mod 100000) / 100000)
                        else of_nat (?n div 100000 * 100000 + ?n mod 100000) / 100000))"
    unfolding format_5f_Fin by (rule py_float_decimal [OF m])
  also have "\<dots> = Inr (to_double (if q < 0 then - (of_nat ?n / 100000) else of_nat ?n / 100000))"
    by (simp only: n)
  also have "\<dots> = Inr (to_double (of_int ?r / 100000))"
    by (simp only: eq)
  finally show ?thesis by (simp only: Fin round5_def pyfloat.case)
qed

lemma format_5f_chars:
  "c \<in> set (format_5f x) \<Longrightarrow> c \<noteq> CHR ''='' \<and> c \<noteq> CHR ''v''"
proof (cases x)
  case (Fin q)
  assume "c \<in> set (format_5f x)"
  then have "c = CHR ''-'' \<or> c = CHR ''.'' \<or> is_digit c"
    unfolding Fin format_5f_Fin using digits_of_digits frac5_digits by (auto split: if_splits)
  then show ?thesis using digit_facts by auto
qed (auto simp: format_5f_def)

lemma existing_loop_min_finite:
  assumes "\<forall>p\<in>set paths. \<exists>q. val_metric p = Inr (Fin q)"
  shows "\<exists>p q. existing_loop True paths (bp, Fin b) = Inr (p, Fin q) \<and> q \<le> b
           \<and> (\<forall>p'\<in>set paths. \<forall>q'. val_metric p' = Inr (Fin q') \<longrightarrow> q \<le> q')
           \<and> ((p, q) = (bp, b) \<or> (p \<in> set paths \<and> val_metric p = Inr (Fin q)))"
  using assms
proof (induction paths arbitrary: bp b)
  case Nil
  then show ?case by simp
next
  case (Cons x xs)
  from Cons.prems obtain v where v: "val_metric x = Inr (Fin v)" by auto
  from Cons.prems have rest: "\<forall>p\<in>set xs. \<exists>q. val_metric p = Inr (Fin q)" by simp
  show ?case
  proof (cases "v < b")
    case True
    from Cons.IH [OF rest, of x v] obtain p q where
      r: "existing_loop True xs (x, Fin v) = Inr (p, Fin q)" "q \<le> v"
         "\<forall>p'\<in>set xs. \<forall>q'. val_metric p' = Inr (Fin q') \<longrightarrow> q \<le> q'"
         "(p, q) = (x, v) \<or> (p \<in> set xs \<and> val_metric p = Inr (Fin q))"
      by blast
    have "existing_loop True (x # xs) (bp, Fin b) = Inr (p, Fin q)"
      using True v r(1) by simp
    moreover have "q \<le> b" using r(2) True by simp
    moreover have "\<forall>p'\<in>set (x # xs). \<forall>q'. val_metric p' = Inr (Fin q') \<longrightarrow> q \<le> q'"
      using r(2) r(3) v by auto
    moreover have "p \<in> set (x # xs) \<and> val_metric p = Inr (Fin q)"
      using r(4) v by auto
    ultimately show ?thesis by blast
  next
    case False
    from Cons.IH [OF rest, of bp b] obtain p q where
      r: "existing_loop True xs (bp, Fin b) = Inr (p, Fin q)" "q \<le> b"
         "\<forall>p'\<in>set xs. \<forall>q'. val_metric p' = Inr (Fin q') \<longrightarrow> q \<le> q'"
         "(p, q) = (bp, b) \<or> (p \<in> set xs \<and> val_metric p = Inr (Fin q))"
      by blast
    have "existing_loop True (x # xs) (bp, Fin b) = Inr (p, Fin q)"
      using False v r(1) by simp
    moreover have "\<forall>p'\<in>set (x # xs). \<forall>q'. val_metric p' = Inr (Fin q') \<longrightarrow> q \<le> q'"
      using r(2) r(3) v False by auto
    moreover have "(p, q) = (bp, b) \<or> (p \<in> set (x # xs) \<and> val_metric p = Inr (Fin q))"
      using r(4) by auto
    ultimately show ?thesis using r(2) by blast
  qed
qed

lemma existing_loop_max_finite:
  assumes "\<forall>p\<in>set paths. \<exists>q. val_metric p = Inr (Fin q)"
  shows "\<exists>p q. existing_loop False paths (bp, Fin b) = Inr (p, Fin q) \<and> b \<le> q
           \<and> (\<forall>p'\<in>set paths. \<forall>q'. val_metric p' = Inr (Fin q') \<longrightarrow> q' \<le> q)
           \<and> ((p, q) = (bp, b) \<or> (p \<in> set paths \<and> val_metric p = Inr (Fin q)))"
  using assms
proof (induction paths arbitrary: bp b)
  case Nil
  then show ?case by simp
next
  case (Cons x xs)
  from Cons.prems obtain v where v: "val_metric x = Inr (Fin v)" by auto
  from Cons.prems have rest: "\<forall>p\<in>set xs. \<exists>q. val_metric p = Inr (Fin q)" by simp
  show ?case
  proof (cases "b < v")
    case True
    from Cons.IH [OF rest, of x v] obtain p q where
      r: "existing_loop False xs (x, Fin v) = Inr (p, Fin q)" "v \<le> q"
         "\<forall>p'\<in>set xs. \<forall>q'. val_metric p' = Inr (Fin q') \<longrightarrow> q' \<le> q"
         "(p, q) = (x, v) \<or> (p \<in> set xs \<and> val_metric p = Inr (Fin q))"
      by blast
    have "existing_loop False (x # xs) (bp, Fin b) = Inr (p, Fin q)"
      using True v r(1) by (simp add: float_gt_def)
    moreover have "b \<le> q" using r(2) True by simp
    moreover have "\<forall>p'\<in>set (x # xs). \<forall>q'. val_metric p' = Inr (Fin q') \<longrightarrow> q' \<le> q"
      using r(2) r(3) v by auto
    moreover have "p \<in> set (x # xs) \<and> val_metric p = Inr (Fin q)"
      using r(4) v by auto
    ultimately show ?thesis by blast
  next
    case False
    from Cons.IH [OF rest, of bp b] obtain p q where
      r: "existing_loop False xs (bp, Fin b) = Inr (p, Fin q)" "b \<le> q"
         "\<forall>p'\<in>set xs. \<forall>q'. val_metric p' = Inr (Fin q') \<longrightarrow> q' \<le> q"
         "(p, q) = (bp, b) \<or> (p \<in> set xs \<and> val_metric p = Inr (Fin q))"
      by blast
    have "existing_loop False (x # xs) (bp, Fin b) = Inr (p, Fin q)"
      using False v r(1) by (simp add: float_gt_def)
    moreover have "\<forall>p'\<in>set (x # xs). \<forall>q'. val_metric p' = Inr (Fin q') \<longrightarrow> q' \<le> q"
      using r(2) r(3) v False by auto
    moreover have "(p, q) = (bp, b) \<or> (p \<in> set (x # xs) \<and> val_metric p = Inr (Fin q))"
      using r(4) by auto
    ultimately show ?thesis using r(2) by blast
  qed
qed

lemma loops_agree: "pretrained_loop m paths best = existing_loop m paths best"
  by (induction m paths best rule: existing_loop.induct) (auto split: sum.splits)

subsection \<open>Concrete filenames\<close>

lemma to_double_quarter: "to_double (1 / 4) = Fin (1 / 4)"
proof -
  have q: "quotient_of (1 / 4) = (1, 4)" by code_simp
  have b: "bitlen 4 = 3" "bitlen 1 = 1" by code_simp+
  have i: "ilog2 (1 / 4) = - 2" by (simp add: ilog2_def Let_def pow2_def q b)
  show ?thesis by (simp add: to_double_def i Let_def pow2_def round_half_even_def)
qed

lemma to_double_half: "to_double (1 / 2) = Fin (1 / 2)"
proof -
  have q: "quotient_of (1 / 2) = (1, 2)" by code_simp
  have b: "bitlen 2 = 2" "bitlen 1 = 1" by code_simp+
  have i: "ilog2 (1 / 2) = - 1" by (simp add: ilog2_def Let_def pow2_def q b)
  show ?thesis by (simp add: to_double_def i Let_def pow2_def round_half_even_def)
qed

lemma py_float_half: "py_float ''0.50000'' = Inr (Fin (1 / 2))"
proof -
  have s: "strip ''0.50000'' = ''0.50000''" by code_simp
  have u: "remove_underscores (CHR ''x'') ''0.50000'' = Some ''0.50000''" by code_simp
  have g: "split_sign ''0.50000'' = (False, ''0.50000'')" by code_simp
  have "parse_number (''0'' @ ''.'' @ ''50000'')
      = Some (of_nat (nat_of_digits (''0'' @ ''50000'')) * pow10 (- int (length ''50000'')), [])"
    by (rule parse_number_decimal) (simp_all add: is_digit_def)
  moreover have "nat_of_digits ''050000'' = 50000"
    by (simp add: nat_of_digits_def digit_val_def)
  ultimately have p: "parse_number ''0.50000'' = Some (1 / 2, [])"
    by (simp add: pow10_def)
  show ?thesis using py_float_steps [OF s u g p] by (simp add: to_double_half)
qed

lemma py_float_quarter: "py_float ''0.25000'' = Inr (Fin (1 / 4))"
proof -
  have s: "strip ''0.25000'' = ''0.25000''" by code_simp
  have u: "remove_underscores (CHR ''x'') ''0.25000'' = Some ''0.25000''" by code_simp
  have g: "split_sign ''0.25000'' = (False, ''0.25000'')" by code_simp
  have "parse_number (''0'' @ ''.'' @ ''25000'')
      = Some (of_nat (nat_of_digits (''0'' @ ''25000'')) * pow10 (- int (length ''25000'')), [])"
    by (rule parse_number_decimal) (simp_all add: is_digit_def)
  moreover have "nat_of_digits ''025000'' = 25000"
    by (simp add: nat_of_digits_def digit_val_def)
  ultimately have p: "parse_number ''0.25000'' = Some (1 / 4, [])"
    by (simp add: pow10_def)
  show ?thesis using py_float_steps [OF s u g p] by (simp add: to_double_quarter)
qed

lemma val_metric_half:
  "val_metric ''best-epoch=01-val_loss=0.50000.ckpt'' = Inr (Fin (1 / 2))"
proof -
  have "drop_last (length ''.ckpt'')
          (last (split_chr (CHR ''='') ''best-epoch=01-val_loss=0.50000.ckpt'')) = ''0.50000''"
    by code_simp
  moreover have "\<not> py_in ''-v'' ''0.50000''" by code_simp
  ultimately show ?thesis by (simp add: val_metric_def py_float_half)
qed

lemma val_metric_quarter_v1:
  "val_metric ''best-epoch=02-val_loss=0.25000-v1.ckpt'' = Inr (Fin (1 / 4))"
proof -
  have "drop_last (length ''.ckpt'')
          (last (split_chr (CHR ''='') ''best-epoch=02-val_loss=0.25000-v1.ckpt'')) = ''0.25000-v1''"
    by code_simp
  moreover have "py_in ''-v'' ''0.25000-v1''" by code_simp
  moreover have "drop_last (length ''-v1'') ''0.25000-v1'' = ''0.25000''" by code_simp
  ultimately show ?thesis by (simp add: val_metric_def py_float_quarter)
qed

lemma val_metric_inf:
  "val_metric ''best-epoch=00-val_loss=inf.ckpt'' = Inr PosInf"
proof -
  have "drop_last (length ''.ckpt'')
          (last (split_chr (CHR ''='') ''best-epoch=00-val_loss=inf.ckpt'')) = ''inf''"
    by code_simp
  moreover have "\<not> py_in ''-v'' ''inf''" by code_simp
  moreover have "py_float ''inf'' = Inr PosInf" by code_simp
  ultimately show ?thesis by (simp add: val_metric_def)
qed

subsection \<open>C1: the selected checkpoint is optimal\<close>

text \<open>
  C1, as stated: for every non-empty listing of filenames \<open><prefix>=<value>.ckpt\<close> or
  \<open><prefix>=<value>-v1.ckpt\<close>, the loop returns the filename whose embedded value is
  minimal for \<open>min\<close> and maximal for \<open>max\<close>. This fails when the embedded value is
  \<open>inf\<close>: the only file of the listing below has the minimal value, but the comparison
  with the initial \<open>np.inf\<close> is strict, so the loop returns the empty path.
\<close>

theorem best_existing_model_inf_counterexample:
  "val_metric ''best-epoch=00-val_loss=inf.ckpt'' = Inr PosInf
   \<and> best_existing_model ''min'' [''best-epoch=00-val_loss=inf.ckpt''] = Inr ([], PosInf)
   \<and> [] \<notin> set [''best-epoch=00-val_loss=inf.ckpt'']"
  using val_metric_inf by (simp add: best_existing_model_def)

text \<open>
  C1, amended: for every non-empty listing in which the embedded value of every filename
  parses to a finite float, the loop returns a filename of the listing, together with its
  value, and that value is minimal over the listing when the flag is \<open>min\<close> and maximal
  when it is \<open>max\<close>.
\<close>

theorem best_existing_model_optimal:
  assumes "all_saved_models \<noteq> []"
    and "\<forall>p\<in>set all_saved_models. \<exists>q. val_metric p = Inr (Fin q)"
  shows "(\<exists>p q. best_existing_model ''min'' all_saved_models = Inr (p, Fin q)
            \<and> p \<in> set all_saved_models \<and> val_metric p = Inr (Fin q)
            \<and> (\<forall>p'\<in>set all_saved_models. \<forall>q'. val_metric p' = Inr (Fin q') \<longrightarrow> q \<le> q'))
       \<and> (\<exists>p q. best_existing_model ''max'' all_saved_models = Inr (p, Fin q)
            \<and> p \<in> set all_saved_models \<and> val_metric p = Inr (Fin q)
            \<and> (\<forall>p'\<in>set all_saved_models. \<forall>q'. val_metric p' = Inr (Fin q') \<longrightarrow> q' \<le> q))"
proof -
  from assms(1) obtain x xs where l: "all_saved_models = x # xs" by (cases all_saved_models) auto
  from assms(2) l obtain v where v: "val_metric x = Inr (Fin v)" by auto
  from assms(2) l have rest: "\<forall>p\<in>set xs. \<exists>q. val_metric p = Inr (Fin q)" by simp
  have mn: "best_existing_model ''min'' all_saved_models = existing_loop True xs (x, Fin v)"
    by (simp add: best_existing_model_def l v)
  have mx: "best_existing_model ''max'' all_saved_models = existing_loop False xs (x, Fin v)"
    by (simp add: best_existing_model_def l v float_gt_def)
  from existing_loop_min_finite [OF rest, of x v] obtain p q where
    a: "existing_loop True xs (x, Fin v) = Inr (p, Fin q)" "q \<le> v"
       "\<forall>p'\<in>set xs. \<forall>q'. val_metric p' = Inr (Fin q') \<longrightarrow> q \<le> q'"
       "(p, q) = (x, v) \<or> (p \<in> set xs \<and> val_metric p = Inr (Fin q))"
    by blast
  from existing_loop_max_finite [OF rest, of x v] obtain p2 q2 where
    b: "existing_loop False xs (x, Fin v) = Inr (p2, Fin q2)" "v \<le> q2"
       "\<forall>p'\<in>set xs. \<forall>q'. val_metric p' = Inr (Fin q') \<longrightarrow> q' \<le> q2"
       "(p2, q2) = (x, v) \<or> (p2 \<in> set xs \<and> val_metric p2 = Inr (Fin q2))"
    by blast
  have A: "p \<in> set all_saved_models \<and> val_metric p = Inr (Fin q)
            \<and> (\<forall>p'\<in>set all_saved_models. \<forall>q'. val_metric p' = Inr (Fin q') \<longrightarrow> q \<le> q')"
    using a l v by auto
  have B: "p2 \<in> set all_saved_models \<and> val_metric p2 = Inr (Fin q2)
            \<and> (\<forall>p'\<in>set all_saved_models. \<forall>q'. val_metric p' = Inr (Fin q') \<longrightarrow> q' \<le> q2)"
    using b l v by auto
  show ?thesis using mn mx a(1) b(1) A B by auto
qed

theorem best_existing_model_optimal_witness:
  "[''best-epoch=01-val_loss=0.50000.ckpt'', ''best-epoch=02-val_loss=0.25000-v1.ckpt''] \<noteq> []
   \<and> (\<exists>p q. best_existing_model ''min''
               [''best-epoch=01-val_loss=0.50000.ckpt'', ''best-epoch=02-val_loss=0.25000-v1.ckpt'']
             = Inr (p, Fin q)
          \<and> val_metric p = Inr (Fin q) \<and> q \<le> 1 / 2 \<and> q \<le> 1 / 4)
   \<and> (\<exists>p q. best_existing_model ''max''
               [''best-epoch=01-val_loss=0.50000.ckpt'', ''best-epoch=02-val_loss=0.25000-v1.ckpt'']
             = Inr (p, Fin q)
          \<and> val_metric p = Inr (Fin q) \<and> 1 / 2 \<le> q \<and> 1 / 4 \<le> q)"
proof -
  let ?a = "''best-epoch=01-val_loss=0.50000.ckpt''"
  let ?b = "''best-epoch=02-val_loss=0.25000-v1.ckpt''"
  have h1: "[?a, ?b] \<noteq> []" by simp
  have e1: "\<exists>q. val_metric ?a = Inr (Fin q)" using val_metric_half by blast
  have e2: "\<exists>q. val_metric ?b = Inr (Fin q)" using val_metric_quarter_v1 by blast
  have h2: "\<forall>p\<in>set [?a, ?b]. \<exists>q. val_metric p = Inr (Fin q)"
    using e1 e2 by simp
  have ia: "?a \<in> set [?a, ?b]" and ib: "?b \<in> set [?a, ?b]" by simp_all
  from best_existing_model_optimal [OF h1 h2] obtain p q p2 q2 where
    mn: "best_existing_model ''min'' [?a, ?b] = Inr (p, Fin q)" "val_metric p = Inr (Fin q)"
        "\<forall>p'\<in>set [?a, ?b]. \<forall>q'. val_metric p' = Inr (Fin q') \<longrightarrow> q \<le> q'"
    and mx: "best_existing_model ''max'' [?a, ?b] = Inr (p2, Fin q2)" "val_metric p2 = Inr (Fin q2)"
        "\<forall>p'\<in>set [?a, ?b]. \<forall>q'. val_metric p' = Inr (Fin q') \<longrightarrow> q' \<le> q2"
    by blast
  have "q \<le> 1 / 2" using mn(3) ia val_metric_half by blast
  moreover have "q \<le> 1 / 4" using mn(3) ib val_metric_quarter_v1 by blast
  moreover have "1 / 2 \<le> q2" using mx(3) ia val_metric_half by blast
  moreover have "1 / 4 \<le> q2" using mx(3) ib val_metric_quarter_v1 by blast
  ultimately show ?thesis using h1 mn(1,2) mx(1,2) by blast
qed

subsection \<open>C8: the two copies of the selection agree\<close>

text \<open>
  C8: the selection of the best pretrained model and the selection of the best existing
  model return the same filename and the same metric value (or fail with the same
  error) on every listing and every direction flag.
\<close>

theorem best_model_copies_agree:
  "best_pretrained_model direction all_saved_models
     = best_existing_model direction all_saved_models"
  by (simp add: best_pretrained_model_def best_existing_model_def loops_agree)

subsection \<open>C7: naming a checkpoint and parsing its name\<close>

text \<open>
  C7: for every epoch and every value of the monitored metric, the metric value that the
  selection loop reads from the filename written for the pattern
  \<open>best-{epoch:02d}-{metric:.5f}\<close> is the monitored value rounded to five decimal places.
\<close>

theorem checkpoint_name_roundtrip:
  "val_metric (format_checkpoint_name metric_to_monitor epoch value) = Inr (round5 value)"
proof -
  let ?v = "format_5f value"
  have name: "format_checkpoint_name metric_to_monitor epoch value
      = (''best-epoch='' @ format_02d epoch @ ''-'' @ metric_to_monitor) @ CHR ''='' # (?v @ ''.ckpt'')"
    by (simp add: format_checkpoint_name_def)
  have "CHR ''='' \<notin> set (?v @ ''.ckpt'')" using format_5f_chars by auto
  then have seg: "last (split_chr (CHR ''='') (format_checkpoint_name metric_to_monitor epoch value))
      = ?v @ ''.ckpt''"
    unfolding name by (rule last_split_chr)
  have t: "drop_last (length ''.ckpt'') (?v @ ''.ckpt'') = ?v"
    by (rule drop_last_append) simp
  have nv: "\<not> py_in ''-v'' ?v"
    by (rule not_py_in_dash_v) (use format_5f_chars in blast)
  show ?thesis
    unfolding val_metric_def seg t using nv by (simp add: py_float_format_5f)
qed

section \<open>Properties of train_model\<close>

subsection \<open>The setup phase\<close>

lemma log_emit: "log (emit e w) = log w @ [e]"
  by (simp add: emit_def)

lemma log_ensure_dir: "\<exists>ds. log (ensure_dir d w) = log w @ map MakeDirs ds"
proof (cases "path_exists w d")
  case True
  then have "log (ensure_dir d w) = log w @ map MakeDirs []" by (simp add: ensure_dir_def)
  then show ?thesis by blast
next
  case False
  then have "log (ensure_dir d w) = log w @ map MakeDirs [d]"
    by (simp add: ensure_dir_def makedirs_def emit_def)
  then show ?thesis by blast
qed

lemma log_ensure_dir_chain:
  "\<exists>ds. log w' = log w @ map MakeDirs ds \<Longrightarrow> \<exists>ds. log (ensure_dir d w') = log w @ map MakeDirs ds"
proof -
  assume "\<exists>ds. log w' = log w @ map MakeDirs ds"
  then obtain ds where a: "log w' = log w @ map MakeDirs ds" by blast
  obtain es where b: "log (ensure_dir d w') = log w' @ map MakeDirs es"
    using log_ensure_dir by blast
  have "log (ensure_dir d w') = log w @ map MakeDirs (ds @ es)" using a b by simp
  then show ?thesis by blast
qed

lemma create_directories_log: "\<exists>ds. log (create_directories cfg w) = log w @ map MakeDirs ds"
  unfolding create_directories_def Let_def
  by (intro log_ensure_dir_chain log_ensure_dir)

lemma train_model_setup_error:
  "setup_tasks a finetune = Inl e \<Longrightarrow>
     train_model en a cfg finetune w = (Inl e, create_directories cfg w)"
  by (simp add: train_model_def Let_def)

lemma train_model_motif_error:
  "setup_tasks a finetune = Inr (tasks, pts) \<Longrightarrow> check_motif_based a tasks = Inl e \<Longrightarrow>
     train_model en a cfg finetune w = (Inl e, create_directories cfg w)"
  by (simp add: train_model_def Let_def)

lemma startswith_iff: "startswith s p \<longleftrightarrow> (\<exists>r. s = p @ r)"
proof
  assume "startswith s p"
  then have "s = p @ drop (length p) s"
    unfolding startswith_def by (metis append_take_drop_id)
  then show "\<exists>r. s = p @ r" ..
next
  assume "\<exists>r. s = p @ r"
  then show "startswith s p" by (auto simp: startswith_def)
qed

lemma startswith_single_task:
  "startswith s ''single_task'' \<Longrightarrow> s \<noteq> ''joint'' \<and> \<not> startswith s ''pretrain''"
  by (auto simp: startswith_iff)

lemma startswith_pretrain: "startswith s ''pretrain'' \<Longrightarrow> s \<noteq> ''joint''"
  by (auto simp: startswith_iff)

lemma split_tasks: "split_chr (CHR '','') ''LL100,CCLE'' = [''LL100'', ''CCLE'']"
  by code_simp

lemma setup_pretrain:
  "setup_tasks (example_args ''pretrain'') False = Inr ([''LL100'', ''CCLE''], Some [''LL100'', ''CCLE''])"
  by (simp add: setup_tasks_def example_args_def startswith_def split_tasks)

lemma cd_empty: "create_directories example_config empty_world =
   \<lparr>existing = [''data/common'', ''data'', ''out/summaries'', ''out/saved_models'', ''out''],
    log = [MakeDirs ''out'', MakeDirs ''out/saved_models'', MakeDirs ''out/summaries'',
           MakeDirs ''data'', MakeDirs ''data/common'']\<rparr>"
  by (simp add: create_directories_def example_config_def empty_world_def ensure_dir_def
      makedirs_def emit_def path_exists_def path_join_def path_join2_def startswith_def Let_def)

lemma nf_pretrain: "name_format (example_args ''pretrain'') False [''LL100'', ''CCLE''] [''LL100'', ''CCLE'']
   = ''pretrain_on_LL100+CCLE''"
  by (simp add: name_format_def example_args_def startswith_def with_model_name_def Let_def)

lemma train_model_success:
  assumes "setup_tasks a fin = Inr (tasks, pts)" and "check_motif_based a tasks = Inr ()"
    and "load_pretrained en a fin (path_join (root_dir cfg) [''saved_models'']) pts
           (create_directories cfg w0) = (Inr (), w2)"
  shows "train_model en a cfg fin w0
      = seed_loop (run_seed en a fin (path_join (root_dir cfg) [''saved_models''])
                     (if py_in ''pretrain'' (modelling_strategy a) \<and> \<not> fin
                      then pretrain_metric_direction_which_is_optimal a
                      else metric_direction_which_is_optimal a)
                     (name_format a fin tasks (case pts of None \<Rightarrow> [] | Some p \<Rightarrow> p)))
          (seed_range a fin) (foldl (\<lambda>w t. emit (InstantiateDataloaders t) w) w2 tasks)"
  using assms by (simp add: train_model_def Let_def)

subsection \<open>C3: invalid modelling strategies\<close>

text \<open>
  C3, as stated: every strategy other than the six documented ones raises the
  invalid-strategy error before any dataloader is instantiated. The script tests
  \<open>== "joint"\<close>, \<open>startswith("pretrain")\<close> and \<open>startswith("single_task")\<close>, so a strategy
  such as \<open>pretrain\<close>, which is none of the six, is accepted: the run below instantiates
  the dataloaders and trains.
\<close>

theorem prefix_strategy_counterexample:
  "''pretrain'' \<noteq> ''joint'' \<and> ''pretrain'' \<noteq> ''pretrain+finetune''
   \<and> ''pretrain'' \<noteq> ''pretrain+linear_probing'' \<and> ''pretrain'' \<noteq> ''pretrain+simple_regression''
   \<and> ''pretrain'' \<noteq> ''single_task'' \<and> ''pretrain'' \<noteq> ''single_task_simple_regression''
   \<and> fst (train_model (example_env None) (example_args ''pretrain'') example_config False empty_world)
       = Inr ()
   \<and> log (snd (train_model (example_env None) (example_args ''pretrain'') example_config False
                  empty_world))
       = [MakeDirs ''out'', MakeDirs ''out/saved_models'', MakeDirs ''out/summaries'',
          MakeDirs ''data'', MakeDirs ''data/common'', InstantiateDataloaders ''LL100'',
          InstantiateDataloaders ''CCLE'', Print ''Training model'',
          TrainerFit ''pretrain_on_LL100+CCLE'',
          WriteDone ''out/saved_models/pretrain_on_LL100+CCLE/default/done.txt'',
          Predict ''pretrain_on_LL100+CCLE'']"
proof -
  let ?a = "example_args ''pretrain''"
  let ?n = "''pretrain_on_LL100+CCLE''"
  let ?w3 = "emit (InstantiateDataloaders ''CCLE'') (emit (InstantiateDataloaders ''LL100'')
               (create_directories example_config empty_world))"
  have sr: "seed_range ?a False = [0]"
    by (simp add: seed_range_def num_models_to_train_def example_args_def startswith_def)
  have lp: "load_pretrained (example_env None) ?a False
              (path_join (root_dir example_config) [''saved_models''])
              (Some [''LL100'', ''CCLE'']) (create_directories example_config empty_world)
            = (Inr (), create_directories example_config empty_world)"
    by (simp add: load_pretrained_def)
  have cm: "check_motif_based ?a [''LL100'', ''CCLE''] = Inr ()"
    by (simp add: check_motif_based_def example_args_def startswith_def)
  have msd: "path_join (root_dir example_config) [''saved_models''] = ''out/saved_models''"
    by (simp add: example_config_def path_join_def path_join2_def startswith_def)
  have ex: "existing ?w3 = [''data/common'', ''data'', ''out/summaries'', ''out/saved_models'', ''out'']"
    by (simp add: cd_empty emit_def)
  have rn: "run_name ?a False ?n 0 = ?n"
    by (simp add: run_name_def num_models_to_train_def example_args_def startswith_def)
  have ue: "\<not> use_existing ?a ?w3 ''out/saved_models'' ?n"
    by (simp add: use_existing_def path_exists_def ex path_join_def path_join2_def startswith_def)
  have nsr: "\<not> simple_regression ?a False"
    by (simp add: simple_regression_def example_args_def)
  have fe: "fit_error (example_env None) ?n = None"
    by (simp add: example_env_def)
  have df: "path_join ''out/saved_models'' [?n, ''default'', ''done.txt'']
              = ''out/saved_models/pretrain_on_LL100+CCLE/default/done.txt''"
    by (simp add: path_join_def path_join2_def startswith_def)
  have rs: "run_seed (example_env None) ?a False ''out/saved_models'' d ?n 0 ?w3
            = (Inr (), emit (Predict ?n)
                (write_done ''out/saved_models/pretrain_on_LL100+CCLE/default/done.txt''
                  (emit (TrainerFit ?n) (emit (Print ''Training model'') ?w3))))" for d
    unfolding run_seed_def Let_def rn by (simp only: ue nsr fe df if_False option.case)
  have tm: "train_model (example_env None) ?a example_config False empty_world
      = seed_loop (run_seed (example_env None) ?a False ''out/saved_models''
                     (if py_in ''pretrain'' (modelling_strategy ?a) \<and> \<not> False
                      then pretrain_metric_direction_which_is_optimal ?a
                      else metric_direction_which_is_optimal ?a) ?n) [0] ?w3"
    by (simp only: train_model_success [OF setup_pretrain cm lp] msd option.case nf_pretrain sr
        foldl_Cons foldl_Nil)
  have res: "train_model (example_env None) ?a example_config False empty_world
      = (Inr (), emit (Predict ?n)
                (write_done ''out/saved_models/pretrain_on_LL100+CCLE/default/done.txt''
                  (emit (TrainerFit ?n) (emit (Print ''Training model'') ?w3))))"
    unfolding tm by (simp add: rs)
  show ?thesis
    unfolding res by (simp add: cd_empty emit_def write_done_def)
qed

text \<open>
  C3, amended: for every strategy that is not \<open>joint\<close> and starts neither with
  \<open>pretrain\<close> nor with \<open>single_task\<close>, train_model raises
  \<open>ValueError("Invalid modelling strategy")\<close>, and up to then it has only created
  directories: no dataloader is instantiated and no model is trained.
\<close>

theorem invalid_strategy_raises:
  assumes "modelling_strategy a \<noteq> ''joint''"
    and "\<not> startswith (modelling_strategy a) ''pretrain''"
    and "\<not> startswith (modelling_strategy a) ''single_task''"
  shows "\<exists>w'. train_model en a cfg finetune w = (Inl (ValueError ''Invalid modelling strategy''), w')
           \<and> (\<exists>ds. log w' = log w @ map MakeDirs ds)"
proof -
  have "setup_tasks a finetune = Inl (ValueError ''Invalid modelling strategy'')"
    using assms by (simp add: setup_tasks_def)
  from train_model_setup_error [OF this] create_directories_log show ?thesis by blast
qed

theorem invalid_strategy_raises_witness:
  "modelling_strategy (example_args ''finetune'') \<noteq> ''joint''
   \<and> \<not> startswith (modelling_strategy (example_args ''finetune'')) ''pretrain''
   \<and> \<not> startswith (modelling_strategy (example_args ''finetune'')) ''single_task''
   \<and> (\<exists>w'. train_model (example_env None) (example_args ''finetune'') example_config False
               empty_world
             = (Inl (ValueError ''Invalid modelling strategy''), w')
          \<and> (\<exists>ds. log w' = log empty_world @ map MakeDirs ds))"
proof -
  have h1: "modelling_strategy (example_args ''finetune'') \<noteq> ''joint''"
    by (simp add: example_args_def)
  have h2: "\<not> startswith (modelling_strategy (example_args ''finetune'')) ''pretrain''"
    by (simp add: example_args_def startswith_def)
  have h3: "\<not> startswith (modelling_strategy (example_args ''finetune'')) ''single_task''"
    by (simp add: example_args_def startswith_def)
  from invalid_strategy_raises [OF h1 h2 h3] h1 h2 h3 show ?thesis by blast
qed

subsection \<open>C4: missing task lists\<close>

text \<open>
  C4: when the strategy is \<open>joint\<close> and \<open>joint_tasks\<close> is None, or starts with
  \<open>pretrain\<close> and \<open>pretrain_tasks\<close> or \<open>finetune_tasks\<close> is None, or starts with
  \<open>single_task\<close> and \<open>single_task\<close> is None, train_model halts with an assertion
  failure; it has only created directories, nothing is instantiated or trained.
\<close>

theorem missing_tasks_assertion:
  assumes "(modelling_strategy a = ''joint'' \<and> joint_tasks a = None)
         \<or> (startswith (modelling_strategy a) ''pretrain''
              \<and> (pretrain_tasks a = None \<or> finetune_tasks a = None))
         \<or> (startswith (modelling_strategy a) ''single_task'' \<and> single_task a = None)"
  shows "\<exists>msg w'. train_model en a cfg finetune w = (Inl (AssertionError msg), w')
           \<and> (\<exists>ds. log w' = log w @ map MakeDirs ds)"
proof -
  have "\<exists>msg. setup_tasks a finetune = Inl (AssertionError msg)"
    using assms startswith_single_task [of "modelling_strategy a"]
      startswith_pretrain [of "modelling_strategy a"]
    by (auto simp: setup_tasks_def split: option.splits)
  then obtain msg where "setup_tasks a finetune = Inl (AssertionError msg)" by blast
  from train_model_setup_error [OF this] create_directories_log show ?thesis by blast
qed

theorem missing_tasks_assertion_witness:
  "modelling_strategy ((example_args ''joint'')\<lparr>joint_tasks := None\<rparr>) = ''joint''
   \<and> joint_tasks ((example_args ''joint'')\<lparr>joint_tasks := None\<rparr>) = None
   \<and> (\<exists>msg w'. train_model (example_env None) ((example_args ''joint'')\<lparr>joint_tasks := None\<rparr>)
                   example_config False empty_world
                 = (Inl (AssertionError msg), w')
          \<and> (\<exists>ds. log w' = log empty_world @ map MakeDirs ds))"
proof -
  let ?a = "(example_args ''joint'')\<lparr>joint_tasks := None\<rparr>"
  have h: "modelling_strategy ?a = ''joint''" "joint_tasks ?a = None"
    by (simp_all add: example_args_def)
  then have "(modelling_strategy ?a = ''joint'' \<and> joint_tasks ?a = None)
         \<or> (startswith (modelling_strategy ?a) ''pretrain''
              \<and> (pretrain_tasks ?a = None \<or> finetune_tasks ?a = None))
         \<or> (startswith (modelling_strategy ?a) ''single_task'' \<and> single_task ?a = None)"
    by blast
  from missing_tasks_assertion [OF this] h show ?thesis by blast
qed

subsection \<open>C10: motif-based models\<close>

text \<open>
  C10: when the model name starts with \<open>MotifBased\<close> and the tasks are resolved,
  train_model halts with an assertion failure unless there is exactly one task and it is
  \<open>FluorescenceData\<close>, \<open>FluorescenceData_DE\<close> or \<open>Malinois_MPRA\<close>; in that case the check
  passes.
\<close>

theorem motif_based_assertion:
  assumes "startswith (model_name a) ''MotifBased''"
    and "setup_tasks a finetune = Inr (tasks, pts)"
  shows "(\<not> (length tasks = 1 \<and> (hd tasks = ''FluorescenceData'' \<or> hd tasks = ''FluorescenceData_DE''
                                   \<or> hd tasks = ''Malinois_MPRA''))
           \<longrightarrow> (\<exists>msg w'. train_model en a cfg finetune w = (Inl (AssertionError msg), w')
                  \<and> (\<exists>ds. log w' = log w @ map MakeDirs ds)))
       \<and> (length tasks = 1 \<and> (hd tasks = ''FluorescenceData'' \<or> hd tasks = ''FluorescenceData_DE''
                                   \<or> hd tasks = ''Malinois_MPRA'')
           \<longrightarrow> check_motif_based a tasks = Inr ())"
proof (intro conjI impI)
  assume "\<not> (length tasks = 1 \<and> (hd tasks = ''FluorescenceData'' \<or> hd tasks = ''FluorescenceData_DE''
                                   \<or> hd tasks = ''Malinois_MPRA''))"
  then have "\<exists>msg. check_motif_based a tasks = Inl (AssertionError msg)"
    using assms(1) by (auto simp: check_motif_based_def)
  then obtain msg where "check_motif_based a tasks = Inl (AssertionError msg)" by blast
  from train_model_motif_error [OF assms(2) this] create_directories_log
  show "\<exists>msg w'. train_model en a cfg finetune w = (Inl (AssertionError msg), w')
                  \<and> (\<exists>ds. log w' = log w @ map MakeDirs ds)" by blast
next
  assume "length tasks = 1 \<and> (hd tasks = ''FluorescenceData'' \<or> hd tasks = ''FluorescenceData_DE''
                                   \<or> hd tasks = ''Malinois_MPRA'')"
  then show "check_motif_based a tasks = Inr ()"
    by (auto simp: check_motif_based_def)
qed

theorem motif_based_assertion_witness:
  "startswith (model_name ((example_args ''single_task'')\<lparr>model_name := ''MotifBasedFCN''\<rparr>))
     ''MotifBased''
   \<and> setup_tasks ((example_args ''single_task'')\<lparr>model_name := ''MotifBasedFCN''\<rparr>) False
       = Inr ([''LL100''], None)
   \<and> \<not> (length [''LL100''] = 1 \<and> (hd [''LL100''] = ''FluorescenceData''
            \<or> hd [''LL100''] = ''FluorescenceData_DE'' \<or> hd [''LL100''] = ''Malinois_MPRA''))
   \<and> (\<exists>msg w'. train_model (example_env None)
                   ((example_args ''single_task'')\<lparr>model_name := ''MotifBasedFCN''\<rparr>)
                   example_config False empty_world
                 = (Inl (AssertionError msg), w')
          \<and> (\<exists>ds. log w' = log empty_world @ map MakeDirs ds))
   \<and> setup_tasks ((example_args ''single_task'')\<lparr>model_name := ''MotifBasedFCN'',
                       single_task := Some ''Malinois_MPRA''\<rparr>) False
       = Inr ([''Malinois_MPRA''], None)
   \<and> check_motif_based ((example_args ''single_task'')\<lparr>model_name := ''MotifBasedFCN'',
                       single_task := Some ''Malinois_MPRA''\<rparr>) [''Malinois_MPRA''] = Inr ()"
proof -
  let ?a = "(example_args ''single_task'')\<lparr>model_name := ''MotifBasedFCN''\<rparr>"
  let ?b = "(example_args ''single_task'')\<lparr>model_name := ''MotifBasedFCN'',
                       single_task := Some ''Malinois_MPRA''\<rparr>"
  have a1: "startswith (model_name ?a) ''MotifBased''"
    by (simp add: example_args_def startswith_def)
  have a2: "setup_tasks ?a False = Inr ([''LL100''], None)"
    by (simp add: setup_tasks_def example_args_def startswith_def)
  have a3: "\<not> (length [''LL100''] = 1 \<and> (hd [''LL100''] = ''FluorescenceData''
            \<or> hd [''LL100''] = ''FluorescenceData_DE'' \<or> hd [''LL100''] = ''Malinois_MPRA''))"
    by simp
  have b1: "startswith (model_name ?b) ''MotifBased''"
    by (simp add: example_args_def startswith_def)
  have b2: "setup_tasks ?b False = Inr ([''Malinois_MPRA''], None)"
    by (simp add: setup_tasks_def example_args_def startswith_def)
  have b3: "length [''Malinois_MPRA''] = 1 \<and> (hd [''Malinois_MPRA''] = ''FluorescenceData''
            \<or> hd [''Malinois_MPRA''] = ''FluorescenceData_DE''
            \<or> hd [''Malinois_MPRA''] = ''Malinois_MPRA'')"
    by simp
  from motif_based_assertion [OF a1 a2, of "example_env None" example_config empty_world] a3
  have A: "\<exists>msg w'. train_model (example_env None) ?a example_config False empty_world
                 = (Inl (AssertionError msg), w')
          \<and> (\<exists>ds. log w' = log empty_world @ map MakeDirs ds)"
    by blast
  from motif_based_assertion [OF b1 b2, of "example_env None" example_config empty_world] b3
  have B: "check_motif_based ?b [''Malinois_MPRA''] = Inr ()"
    by blast
  show ?thesis using a1 a2 a3 A b2 B by blast
qed

subsection \<open>C9: the number of seeds\<close>

text \<open>
  C9: when the strategy contains \<open>pretrain\<close> and train_model runs the pretraining phase
  (\<open>finetune = False\<close>), the seed loop ranges over the single seed 0, whatever
  \<open>num_random_seeds\<close> is; in every other phase it ranges over
  \<open>range(num_random_seeds)\<close>, that is \<open>num_random_seeds\<close> seeds (none when the number is
  negative).
\<close>

theorem seed_loop_runs:
  "(py_in ''pretrain'' (modelling_strategy a) \<and> \<not> finetune \<longrightarrow> seed_range a finetune = [0])
   \<and> (\<not> (py_in ''pretrain'' (modelling_strategy a) \<and> \<not> finetune) \<longrightarrow>
        seed_range a finetune = [0 ..< nat (num_random_seeds a)]
        \<and> int (length (seed_range a finetune)) = max 0 (num_random_seeds a))"
  by (auto simp: seed_range_def num_models_to_train_def)

theorem seed_loop_runs_witness:
  "py_in ''pretrain'' (modelling_strategy (example_args ''pretrain+finetune''))
   \<and> seed_range (example_args ''pretrain+finetune'') False = [0]
   \<and> \<not> py_in ''pretrain'' (modelling_strategy (example_args ''joint''))
   \<and> seed_range (example_args ''joint'') False = [0 ..< nat (num_random_seeds (example_args ''joint''))]
   \<and> length (seed_range (example_args ''joint'') False) = 3
   \<and> seed_range (example_args ''pretrain+finetune'') True
        = [0 ..< nat (num_random_seeds (example_args ''pretrain+finetune''))]
   \<and> length (seed_range (example_args ''pretrain+finetune'') True) = 3"
proof -
  have p1: "py_in ''pretrain'' (modelling_strategy (example_args ''pretrain+finetune''))"
    by (simp add: example_args_def startswith_def)
  have p2: "\<not> py_in ''pretrain'' (modelling_strategy (example_args ''joint''))"
    by (simp add: example_args_def startswith_def)
  have n: "num_random_seeds (example_args s) = 3" for s
    by (simp add: example_args_def)
  from seed_loop_runs [of "example_args ''pretrain+finetune''" False] p1
  have A: "seed_range (example_args ''pretrain+finetune'') False = [0]" by blast
  from seed_loop_runs [of "example_args ''joint''" False] p2
  have B: "seed_range (example_args ''joint'') False
             = [0 ..< nat (num_random_seeds (example_args ''joint''))]"
    "int (length (seed_range (example_args ''joint'') False))
       = max 0 (num_random_seeds (example_args ''joint''))"
    by blast+
  from seed_loop_runs [of "example_args ''pretrain+finetune''" True]
  have C: "seed_range (example_args ''pretrain+finetune'') True
             = [0 ..< nat (num_random_seeds (example_args ''pretrain+finetune''))]"
    "int (length (seed_range (example_args ''pretrain+finetune'') True))
       = max 0 (num_random_seeds (example_args ''pretrain+finetune''))"
    by blast+
  have "length (seed_range (example_args ''joint'') False) = 3" using B(2) n by simp
  moreover have "length (seed_range (example_args ''pretrain+finetune'') True) = 3"
    using C(2) n by simp
  ultimately show ?thesis using p1 p2 A B(1) C(1) by blast
qed

subsection \<open>C5: reusing an existing model\<close>

text \<open>
  C5: an iteration of the seed loop takes the branch that uses the existing model if and
  only if \<open>use_existing_models\<close> is set, the checkpoint directory of the run exists and
  \<open>done.txt\<close> exists; that branch neither calls the trainer nor writes \<open>done.txt\<close>. In
  every other case the model is fitted, and \<open>done.txt\<close> is written after the fit and
  only when the fit completes.
\<close>

theorem existing_model_reuse:
  assumes "name = run_name a finetune nf seed"
    and "cur_models_save_dir = path_join model_save_dir [name, ''default'', ''checkpoints'']"
    and "done_file = path_join model_save_dir [name, ''default'', ''done.txt'']"
    and "fit = (if simple_regression a finetune then FitSimpleRegression name else TrainerFit name)"
    and "run_seed en a finetune model_save_dir direction nf seed w = (r, w')"
  shows "(use_existing a w model_save_dir name \<longleftrightarrow>
            use_existing_models a \<and> path_exists w cur_models_save_dir \<and> path_exists w done_file)
       \<and> (use_existing a w model_save_dir name \<longrightarrow>
            (\<exists>evs. log w' = log w @ Print ''Using existing models and evaluating them'' # evs
                   \<and> (\<forall>n. TrainerFit n \<notin> set evs) \<and> (\<forall>p. WriteDone p \<notin> set evs)))
       \<and> (\<not> use_existing a w model_save_dir name \<and> fit_error en name = None \<longrightarrow>
            r = Inr ()
            \<and> log w' = log w @ [Print ''Training model'', fit]
                  @ (if simple_regression a finetune
                     then [MakeDirs (path_join model_save_dir [name, ''default''])] else [])
                  @ [WriteDone done_file, Predict name])
       \<and> (\<not> use_existing a w model_save_dir name \<and> fit_error en name \<noteq> None \<longrightarrow>
            (\<exists>e. r = Inl e) \<and> log w' = log w @ [Print ''Training model'', fit])"
proof (intro conjI impI)
  show "use_existing a w model_save_dir name \<longleftrightarrow>
            use_existing_models a \<and> path_exists w cur_models_save_dir \<and> path_exists w done_file"
    using assms(2,3) by (auto simp: use_existing_def)
next
  assume u: "use_existing a w model_save_dir name"
  show "\<exists>evs. log w' = log w @ Print ''Using existing models and evaluating them'' # evs
                   \<and> (\<forall>n. TrainerFit n \<notin> set evs) \<and> (\<forall>p. WriteDone p \<notin> set evs)"
    using assms(5) u [unfolded assms(1)]
    by (auto simp: run_seed_def Let_def log_emit split: if_splits option.splits sum.splits)
next
  assume u: "\<not> use_existing a w model_save_dir name \<and> fit_error en name = None"
  then show "r = Inr ()"
    using assms(5) unfolding assms(1)
    by (auto simp: run_seed_def Let_def split: if_splits)
  from u show "log w' = log w @ [Print ''Training model'', fit]
                  @ (if simple_regression a finetune
                     then [MakeDirs (path_join model_save_dir [name, ''default''])] else [])
                  @ [WriteDone done_file, Predict name]"
    using assms(5) unfolding assms(1,3,4)
    by (auto simp: run_seed_def Let_def log_emit write_done_def makedirs_def emit_def split: if_splits)
next
  assume u: "\<not> use_existing a w model_save_dir name \<and> fit_error en name \<noteq> None"
  then show "\<exists>e. r = Inl e"
    using assms(5) unfolding assms(1)
    by (auto simp: run_seed_def Let_def split: if_splits)
  from u show "log w' = log w @ [Print ''Training model'', fit]"
    using assms(5) unfolding assms(1,4)
    by (auto simp: run_seed_def Let_def log_emit split: if_splits)
qed

lemma example_run_name:
  "run_name (example_args ''joint'') False ''joint_train_on_FluorescenceData'' 0
     = ''joint_train_on_FluorescenceData_dl_seed_0''"
proof -
  have "digits_of 0 = ''0''" by (subst digits_of.simps) (simp add: digit_char_def)
  then show ?thesis
    by (simp add: run_name_def num_models_to_train_def example_args_def startswith_def)
qed

lemma example_paths:
  "path_join ''out/saved_models'' [''joint_train_on_FluorescenceData_dl_seed_0'', ''default'', ''checkpoints'']
     = ''out/saved_models/joint_train_on_FluorescenceData_dl_seed_0/default/checkpoints''"
  "path_join ''out/saved_models'' [''joint_train_on_FluorescenceData_dl_seed_0'', ''default'', ''done.txt'']
     = ''out/saved_models/joint_train_on_FluorescenceData_dl_seed_0/default/done.txt''"
  by (simp_all add: path_join_def path_join2_def startswith_def)

theorem existing_model_reuse_witness:
  "use_existing_models (example_args ''joint'')
   \<and> path_exists trained_world
        ''out/saved_models/joint_train_on_FluorescenceData_dl_seed_0/default/checkpoints''
   \<and> path_exists trained_world
        ''out/saved_models/joint_train_on_FluorescenceData_dl_seed_0/default/done.txt''
   \<and> (\<exists>r w' evs. run_seed (example_env None) (example_args ''joint'') False ''out/saved_models''
                     ''max'' ''joint_train_on_FluorescenceData'' 0 trained_world = (r, w')
          \<and> log w' = log trained_world @ Print ''Using existing models and evaluating them'' # evs)
   \<and> \<not> path_exists empty_world
        ''out/saved_models/joint_train_on_FluorescenceData_dl_seed_0/default/checkpoints''
   \<and> (\<exists>w'. run_seed (example_env None) (example_args ''joint'') False ''out/saved_models''
               ''max'' ''joint_train_on_FluorescenceData'' 0 empty_world = (Inr (), w')
          \<and> log w' = log empty_world
               @ [Print ''Training model'', TrainerFit ''joint_train_on_FluorescenceData_dl_seed_0'',
                  WriteDone ''out/saved_models/joint_train_on_FluorescenceData_dl_seed_0/default/done.txt'',
                  Predict ''joint_train_on_FluorescenceData_dl_seed_0''])
   \<and> (\<exists>e w'. run_seed (example_env (Some (RuntimeError ''out of memory''))) (example_args ''joint'')
                 False ''out/saved_models'' ''max'' ''joint_train_on_FluorescenceData'' 0 empty_world
               = (Inl e, w')
          \<and> log w' = log empty_world
               @ [Print ''Training model'', TrainerFit ''joint_train_on_FluorescenceData_dl_seed_0''])"
proof -
  let ?a = "example_args ''joint''"
  let ?nf = "''joint_train_on_FluorescenceData''"
  let ?n = "''joint_train_on_FluorescenceData_dl_seed_0''"
  let ?c = "''out/saved_models/joint_train_on_FluorescenceData_dl_seed_0/default/checkpoints''"
  let ?d = "''out/saved_models/joint_train_on_FluorescenceData_dl_seed_0/default/done.txt''"
  have n: "?n = run_name ?a False ?nf 0" by (simp only: example_run_name)
  have c: "?c = path_join ''out/saved_models'' [?n, ''default'', ''checkpoints'']"
    by (simp only: example_paths)
  have d: "?d = path_join ''out/saved_models'' [?n, ''default'', ''done.txt'']"
    by (simp only: example_paths)
  have nsr: "\<not> simple_regression ?a False" by (simp add: simple_regression_def example_args_def)
  have f: "TrainerFit ?n = (if simple_regression ?a False then FitSimpleRegression ?n else TrainerFit ?n)"
    using nsr by simp
  have u: "use_existing_models ?a" by (simp add: example_args_def)
  have e1: "path_exists trained_world ?c" "path_exists trained_world ?d"
    by (simp_all add: path_exists_def trained_world_def)
  have e2: "\<not> path_exists empty_world ?c" by (simp add: path_exists_def empty_world_def)
  have fe1: "fit_error (example_env None) ?n = None" by (simp add: example_env_def)
  have fe2: "fit_error (example_env (Some (RuntimeError ''out of memory''))) ?n \<noteq> None"
    by (simp add: example_env_def)
  let ?r1 = "run_seed (example_env None) ?a False ''out/saved_models'' ''max'' ?nf 0 trained_world"
  let ?r2 = "run_seed (example_env None) ?a False ''out/saved_models'' ''max'' ?nf 0 empty_world"
  let ?r3 = "run_seed (example_env (Some (RuntimeError ''out of memory''))) ?a False
               ''out/saved_models'' ''max'' ?nf 0 empty_world"
  have p1: "?r1 = (fst ?r1, snd ?r1)" by simp
  have p2: "?r2 = (fst ?r2, snd ?r2)" by simp
  have p3: "?r3 = (fst ?r3, snd ?r3)" by simp
  from existing_model_reuse [OF n c d f p1] u e1
  have A: "\<exists>evs. log (snd ?r1)
             = log trained_world @ Print ''Using existing models and evaluating them'' # evs"
    by blast
  from existing_model_reuse [OF n c d f p2] e2 fe1 nsr
  have B: "fst ?r2 = Inr ()"
    "log (snd ?r2) = log empty_world @ [Print ''Training model'', TrainerFit ?n]
        @ (if simple_regression ?a False
           then [MakeDirs (path_join ''out/saved_models'' [?n, ''default''])] else [])
        @ [WriteDone ?d, Predict ?n]"
    by blast+
  from existing_model_reuse [OF n c d f p3] e2 fe2
  have C: "\<exists>e. fst ?r3 = Inl e"
    "log (snd ?r3) = log empty_world @ [Print ''Training model'', TrainerFit ?n]"
    by blast+
  have B': "log (snd ?r2) = log empty_world @ [Print ''Training model'', TrainerFit ?n,
              WriteDone ?d, Predict ?n]"
    using B(2) nsr by simp
  from A have A': "\<exists>r w' evs. ?r1 = (r, w')
      \<and> log w' = log trained_world @ Print ''Using existing models and evaluating them'' # evs"
    using p1 by metis
  from B(1) B' have B'': "\<exists>w'. ?r2 = (Inr (), w') \<and> log w' = log empty_world
        @ [Print ''Training model'', TrainerFit ?n, WriteDone ?d, Predict ?n]"
    using p2 by metis
  from C have C': "\<exists>e w'. ?r3 = (Inl e, w')
      \<and> log w' = log empty_world @ [Print ''Training model'', TrainerFit ?n]"
    using p3 by metis
  show ?thesis using u e1 e2 A' B'' C' by blast
qed

section \<open>Properties of the evaluation and of the summary\<close>

subsection \<open>C2: NaN predictions\<close>

lemma classification_nan_replaced:
  assumes "eval_branch_of dl nf = ClassificationMetrics" and "list_ex isnan cur_pred"
  shows "\<exists>pred'. metric_inputs fmax dl nf output cur_y cur_pred
            = Some ([''WARNING: Nans in pred, replacing with 0''], cur_y, pred')
          \<and> \<not> list_ex isnan pred' \<and> pred' = map (\<lambda>x. if isnan x then Fin 0 else nan_to_num fmax x) cur_pred"
proof -
  have "\<not> isnan (nan_to_num fmax x)" for x by (cases x) auto
  moreover have "nan_to_num fmax x = (if isnan x then Fin 0 else nan_to_num fmax x)" for x
    by (cases x) auto
  ultimately show ?thesis using assms
    by (auto simp: metric_inputs_def list_ex_iff cong: map_cong)
qed

text \<open>
  C2 says that every prediction vector with NaN values is detected, reported with a
  warning and zero-filled before any metric is computed on it. The classification branch
  does so (lemma \<open>classification_nan_replaced\<close>); the regression branch does not: for a
  regression dataloader the predictions go on with their NaN and nothing is printed.
\<close>

theorem regression_nan_kept:
  "eval_branch_of ''Fluorescence'' ''individual_training_on_FluorescenceData'' = RegressionMetrics
   \<and> metric_inputs fmax ''Fluorescence'' ''individual_training_on_FluorescenceData'' ''JURKAT''
        [Fin 1, Fin 2] [NaN, Fin 2]
      = Some ([], [Fin 1, Fin 2], [NaN, Fin 2])"
proof -
  have "eval_branch_of ''Fluorescence'' ''individual_training_on_FluorescenceData'' = RegressionMetrics"
    by code_simp
  moreover have "\<not> py_in ''MalinoisMPRA'' ''Fluorescence''" by code_simp
  ultimately show ?thesis by (simp add: metric_inputs_def)
qed

subsection \<open>Keys of the summary\<close>

lemma suffix_table:
  "list_all (\<lambda>p. list_all (\<lambda>p'. \<not> suffix (key_suffix (fst p) (snd p)) (key_suffix (fst p') (snd p')) \<or> p = p')
      all_suffixes) all_suffixes"
  by code_simp

lemma key_inj:
  assumes "p \<in> set all_suffixes" and "p' \<in> set all_suffixes"
    and "out @ key_suffix (fst p) (snd p) = out' @ key_suffix (fst p') (snd p')"
  shows "p = p' \<and> out = out'"
proof -
  let ?s = "key_suffix (fst p) (snd p)" and ?s' = "key_suffix (fst p') (snd p')"
  have t: "suffix (key_suffix (fst a) (snd a)) (key_suffix (fst b) (snd b)) \<Longrightarrow> a = b"
    if "a \<in> set all_suffixes" "b \<in> set all_suffixes" for a b
    using suffix_table that unfolding list_all_iff by blast
  have a: "suffix ?s (out @ ?s)" by (simp add: suffix_def)
  have b: "suffix ?s' (out @ ?s)" unfolding assms(3) by (simp add: suffix_def)
  from a b have "suffix ?s ?s' \<or> suffix ?s' ?s" by (rule suffix_same_cases)
  then have "p = p'" using t assms(1,2) by blast
  with assms(3) show ?thesis by simp
qed

lemma assign_Cons: "assign s (kv # kvs) = assign (s(fst kv \<mapsto> snd kv)) kvs"
  by (simp add: assign_def)

lemma assign_cases: "assign s kvs k = s k \<or> (\<exists>v. (k, v) \<in> set kvs \<and> assign s kvs k = Some v)"
proof (induction kvs arbitrary: s)
  case Nil
  then show ?case by (simp add: assign_def)
next
  case (Cons kv kvs)
  let ?t = "s(fst kv \<mapsto> snd kv)"
  from Cons [of ?t] have "assign ?t kvs k = ?t k \<or> (\<exists>v. (k, v) \<in> set kvs \<and> assign ?t kvs k = Some v)" .
  then show ?case
  proof
    assume a: "assign ?t kvs k = ?t k"
    show ?thesis
    proof (cases "k = fst kv")
      case True
      then have "(k, snd kv) \<in> set (kv # kvs)" by simp
      moreover have "assign s (kv # kvs) k = Some (snd kv)"
        unfolding assign_Cons a using True by simp
      ultimately show ?thesis by blast
    next
      case False
      then have "assign s (kv # kvs) k = s k" unfolding assign_Cons a by simp
      then show ?thesis by blast
    qed
  next
    assume "\<exists>v. (k, v) \<in> set kvs \<and> assign ?t kvs k = Some v"
    then obtain v where "(k, v) \<in> set (kv # kvs)" "assign s (kv # kvs) k = Some v"
      unfolding assign_Cons by auto
    then show ?thesis by blast
  qed
qed

lemma assign_mem: "(k, v) \<in> set kvs \<Longrightarrow> \<exists>v'. (k, v') \<in> set kvs \<and> assign s kvs k = Some v'"
proof (induction kvs arbitrary: s)
  case Nil
  then show ?case by simp
next
  case (Cons kv kvs)
  show ?case
  proof (cases "(k, v) \<in> set kvs")
    case True
    from Cons.IH [OF True, of "s(fst kv \<mapsto> snd kv)"] obtain v' where
      "(k, v') \<in> set kvs" "assign (s(fst kv \<mapsto> snd kv)) kvs k = Some v'" by blast
    then have "(k, v') \<in> set (kv # kvs) \<and> assign s (kv # kvs) k = Some v'"
      unfolding assign_Cons by simp
    then show ?thesis by blast
  next
    case False
    with Cons.prems have kv: "kv = (k, v)" by simp
    from assign_cases [of "s(fst kv \<mapsto> snd kv)" kvs k]
    have "assign s (kv # kvs) k = Some v
        \<or> (\<exists>v'. (k, v') \<in> set kvs \<and> assign s (kv # kvs) k = Some v')"
      unfolding assign_Cons kv by simp
    then show ?thesis using kv by auto
  qed
qed

lemma kinds_all: "kd \<in> set [All, Avg, Std, Disp]"
  by (cases kd) simp_all

lemma in_concat_map: "x \<in> set (concat (map f ys)) \<longleftrightarrow> (\<exists>y\<in>set ys. x \<in> set (f y))"
  by auto

lemma in_map_pair: "x \<in> set (map g zs) \<longleftrightarrow> (\<exists>z\<in>set zs. x = g z)"
  by auto

lemma iteration_writes_iff:
  "(k, v) \<in> set (iteration_writes np out fvs) \<longleftrightarrow>
     (\<exists>kd fam xs. (fam, xs) \<in> set fvs \<and> k = out @ key_suffix kd fam \<and> v = entry_value np kd xs)"
proof
  assume "(k, v) \<in> set (iteration_writes np out fvs)"
  then have "\<exists>kd. (k, v) \<in> set (map (\<lambda>fv. (out @ key_suffix kd (fst fv), entry_value np kd (snd fv))) fvs)"
    unfolding iteration_writes_def in_concat_map by blast
  then obtain kd where
    "(k, v) \<in> set (map (\<lambda>fv. (out @ key_suffix kd (fst fv), entry_value np kd (snd fv))) fvs)"
    by blast
  then have "\<exists>fv. fv \<in> set fvs \<and> k = out @ key_suffix kd (fst fv) \<and> v = entry_value np kd (snd fv)"
    unfolding in_map_pair by blast
  then obtain fv where "fv \<in> set fvs" "k = out @ key_suffix kd (fst fv)"
    "v = entry_value np kd (snd fv)"
    by blast
  then have "(fst fv, snd fv) \<in> set fvs \<and> k = out @ key_suffix kd (fst fv)
      \<and> v = entry_value np kd (snd fv)" by simp
  then show "\<exists>kd fam xs. (fam, xs) \<in> set fvs \<and> k = out @ key_suffix kd fam \<and> v = entry_value np kd xs"
    by blast
next
  assume "\<exists>kd fam xs. (fam, xs) \<in> set fvs \<and> k = out @ key_suffix kd fam \<and> v = entry_value np kd xs"
  then obtain kd fam xs where a: "(fam, xs) \<in> set fvs" "k = out @ key_suffix kd fam"
    "v = entry_value np kd xs" by blast
  have "(k, v) \<in> set (map (\<lambda>fv. (out @ key_suffix kd (fst fv), entry_value np kd (snd fv))) fvs)"
    using a by force
  then show "(k, v) \<in> set (iteration_writes np out fvs)"
    unfolding iteration_writes_def in_concat_map using kinds_all [of kd] by blast
qed

lemma lookup_families_sound:
  "lookup_families fams out = Inr fvs \<Longrightarrow> (fam, xs) \<in> set fvs \<Longrightarrow>
     \<exists>d. (fam, d) \<in> set fams \<and> map_of d out = Some xs"
proof (induction fams arbitrary: fvs)
  case Nil
  then show ?case by simp
next
  case (Cons fd fams)
  obtain f d where fd: "fd = (f, d)" by (cases fd)
  from Cons.prems(1) obtain v vs where
    g: "getitem d out = Inr v" and l: "lookup_families fams out = Inr vs" and fvs: "fvs = (f, v) # vs"
    unfolding fd by (auto split: sum.splits)
  from g have m: "map_of d out = Some v" by (auto simp: getitem_def split: option.splits)
  from Cons.prems(2) fvs have "(fam, xs) = (f, v) \<or> (fam, xs) \<in> set vs" by simp
  then show ?case
  proof
    assume "(fam, xs) = (f, v)"
    with m fd show ?thesis by auto
  next
    assume "(fam, xs) \<in> set vs"
    from Cons.IH [OF l this] show ?thesis by auto
  qed
qed

lemma lookup_families_complete:
  "lookup_families fams out = Inr fvs \<Longrightarrow> (fam, d) \<in> set fams \<Longrightarrow> map_of d out = Some xs \<Longrightarrow>
     (fam, xs) \<in> set fvs"
proof (induction fams arbitrary: fvs)
  case Nil
  then show ?case by simp
next
  case (Cons fd fams)
  obtain f d' where fd: "fd = (f, d')" by (cases fd)
  from Cons.prems(1) obtain v vs where
    g: "getitem d' out = Inr v" and l: "lookup_families fams out = Inr vs" and fvs: "fvs = (f, v) # vs"
    unfolding fd by (auto split: sum.splits)
  from g have m: "map_of d' out = Some v" by (auto simp: getitem_def split: option.splits)
  from Cons.prems(2) fd have "(fam, d) = (f, d') \<or> (fam, d) \<in> set fams" by simp
  then show ?case
  proof
    assume "(fam, d) = (f, d')"
    with m Cons.prems(3) fvs show ?thesis by simp
  next
    assume "(fam, d) \<in> set fams"
    from Cons.IH [OF l this Cons.prems(3)] fvs show ?thesis by simp
  qed
qed

lemma iteration_written:
  "lookup_families fams out = Inr fvs \<Longrightarrow> (k, v) \<in> set (iteration_writes np out fvs) \<Longrightarrow>
     written np fams k v"
  unfolding iteration_writes_iff written_def
  using lookup_families_sound by blast

lemma loop_cases:
  "summary_loop np fams outs s = Inr s' \<Longrightarrow>
     s' k = s k \<or> (\<exists>v. s' k = Some v \<and> written np fams k v)"
proof (induction outs arbitrary: s)
  case Nil
  then show ?case by simp
next
  case (Cons out outs)
  from Cons.prems obtain fvs where l: "lookup_families fams out = Inr fvs"
    and r: "summary_loop np fams outs (assign s (iteration_writes np out fvs)) = Inr s'"
    by (auto split: sum.splits)
  from Cons.IH [OF r] have
    "s' k = assign s (iteration_writes np out fvs) k \<or> (\<exists>v. s' k = Some v \<and> written np fams k v)" .
  moreover have "assign s (iteration_writes np out fvs) k = s k
     \<or> (\<exists>v. assign s (iteration_writes np out fvs) k = Some v \<and> written np fams k v)"
    using assign_cases [of s "iteration_writes np out fvs" k] iteration_written [OF l] by blast
  ultimately show ?case by auto
qed

lemma loop_mem:
  "summary_loop np fams outs s = Inr s' \<Longrightarrow> out \<in> set outs \<Longrightarrow> (fam, d) \<in> set fams \<Longrightarrow>
   map_of d out = Some xs \<Longrightarrow>
     \<exists>v. s' (out @ key_suffix kd fam) = Some v \<and> written np fams (out @ key_suffix kd fam) v"
proof (induction outs arbitrary: s)
  case Nil
  then show ?case by simp
next
  case (Cons o1 outs)
  let ?k = "out @ key_suffix kd fam"
  from Cons.prems(1) obtain fvs where l: "lookup_families fams o1 = Inr fvs"
    and r: "summary_loop np fams outs (assign s (iteration_writes np o1 fvs)) = Inr s'"
    by (auto split: sum.splits)
  show ?case
  proof (cases "out \<in> set outs")
    case True
    from Cons.IH [OF r True Cons.prems(3,4)] show ?thesis .
  next
    case False
    with Cons.prems(2) have o1: "o1 = out" by simp
    have "(fam, xs) \<in> set fvs"
      using lookup_families_complete [OF l [unfolded o1] Cons.prems(3,4)] .
    then have "(?k, entry_value np kd xs) \<in> set (iteration_writes np out fvs)"
      unfolding iteration_writes_iff by blast
    from assign_mem [OF this, of s] obtain v' where
      v': "(?k, v') \<in> set (iteration_writes np out fvs)"
          "assign s (iteration_writes np out fvs) ?k = Some v'" by blast
    have w: "written np fams ?k v'" using iteration_written [OF l [unfolded o1] v'(1)] .
    from loop_cases [OF r, of ?k] show ?thesis using v'(2) w o1 by auto
  qed
qed

lemma written_mono: "written np fams k v \<Longrightarrow> set fams \<subseteq> set fams' \<Longrightarrow> written np fams' k v"
  unfolding written_def by blast

lemma all_families_suffix:
  "(fam, d) \<in> set (all_families m) \<Longrightarrow> (kd, fam) \<in> set all_suffixes"
proof -
  assume "(fam, d) \<in> set (all_families m)"
  then have "fam \<in> set family_names"
    by (auto simp: all_families_def classification_families_def highly_expressed_families_def
        lowly_expressed_families_def regression_families_def replicate_families_def
        family_names_def)
  then show ?thesis
    unfolding all_suffixes_def using kinds_all [of kd] by (simp only: set_product) blast
qed

lemma all_families_functional:
  "(fam, d) \<in> set (all_families m) \<Longrightarrow> (fam, d') \<in> set (all_families m) \<Longrightarrow> d = d'"
  by (auto simp: all_families_def classification_families_def highly_expressed_families_def
      lowly_expressed_families_def regression_families_def replicate_families_def)

lemma written_unique:
  assumes "written np (all_families m) k v" and "written np (all_families m) k v'"
  shows "v = v'"
proof -
  from assms(1) obtain out fam d xs kd where
    a: "(fam, d) \<in> set (all_families m)" "map_of d out = Some xs"
       "k = out @ key_suffix kd fam" "v = entry_value np kd xs"
    unfolding written_def by blast
  from assms(2) obtain out' fam' d' xs' kd' where
    b: "(fam', d') \<in> set (all_families m)" "map_of d' out' = Some xs'"
       "k = out' @ key_suffix kd' fam'" "v' = entry_value np kd' xs'"
    unfolding written_def by blast
  have "out @ key_suffix (fst (kd, fam)) (snd (kd, fam))
          = out' @ key_suffix (fst (kd', fam')) (snd (kd', fam'))"
    using a(3) b(3) by simp
  from key_inj [OF all_families_suffix [OF a(1)] all_families_suffix [OF b(1)] this]
  have e: "kd = kd'" "fam = fam'" "out = out'" by simp_all
  with a(1) b(1) have "d = d'" using all_families_functional by blast
  with a(2) b(2) e have "xs = xs'" by simp
  with a(4) b(4) e show ?thesis by simp
qed

lemma families_subset:
  "set (classification_families m) \<subseteq> set (all_families m)"
  "set (highly_expressed_families m) \<subseteq> set (all_families m)"
  "set (lowly_expressed_families m) \<subseteq> set (all_families m)"
  "set (regression_families m) \<subseteq> set (all_families m)"
  "set (replicate_families m) \<subseteq> set (all_families m)"
  by (auto simp: all_families_def)

lemma loop_preserves:
  assumes "summary_loop np fams outs s = Inr s'" and "set fams \<subseteq> set (all_families m)"
    and "\<exists>v. s k = Some v \<and> written np (all_families m) k v"
  shows "\<exists>v. s' k = Some v \<and> written np (all_families m) k v"
  using loop_cases [OF assms(1), of k] assms(2,3) written_mono by metis

lemma loop_establishes:
  assumes "summary_loop np fams outs s = Inr s'" and "set fams \<subseteq> set (all_families m)"
    and "out \<in> set outs" and "(fam, d) \<in> set fams" and "map_of d out = Some xs"
  shows "\<exists>v. s' (out @ key_suffix kd fam) = Some v
           \<and> written np (all_families m) (out @ key_suffix kd fam) v"
  using loop_mem [OF assms(1,3,4,5), of kd] assms(2) written_mono by metis

subsection \<open>C6: the entries of the summary\<close>

text \<open>
  C6: when the summary is built, for every output column recorded for a classification
  family (Accuracy, Precision, Recall, F1) or a regression family (R2, PearsonR,
  SpearmanR), the saved dictionary maps \<open><output>_all_<Metric>\<close> to the list of per-seed
  values, \<open><output>_avg_<Metric>\<close> to the average of that list and
  \<open><output>_std_<Metric>\<close> to its standard deviation, as numpy computes them; no later
  assignment overwrites these keys.
\<close>

theorem summary_entries:
  assumes ok: "build_summary np m fluorescence s0 = Inr r"
    and fam: "((fam, d) \<in> set (classification_families m) \<and> out \<in> set (map fst (all_seeds_accuracy m)))
            \<or> ((fam, d) \<in> set (regression_families m) \<and> out \<in> set (map fst (all_seeds_r2 m)))"
    and xs: "map_of d out = Some xs"
  shows "\<exists>s. r = Some s
           \<and> s (out @ ''_all_'' @ fam) = Some (JList xs)
           \<and> s (out @ ''_avg_'' @ fam) = Some (JFloat (average np xs))
           \<and> s (out @ ''_std_'' @ fam) = Some (JFloat (std np xs))"
proof -
  from fam have guard: "0 < length (all_seeds_r2 m) \<or> 0 < length (all_seeds_accuracy m)"
    by auto
  from ok guard obtain s1 s2 s3 s4 s5 where
    l1: "summary_loop np (classification_families m) (map fst (all_seeds_accuracy m)) s0 = Inr s1"
    and l2: "summary_loop np (highly_expressed_families m)
               (map fst (all_seeds_highly_expressed_accuracy m)) s1 = Inr s2"
    and l3: "summary_loop np (lowly_expressed_families m)
               (map fst (all_seeds_lowly_expressed_accuracy m)) s2 = Inr s3"
    and l4: "summary_loop np (regression_families m) (map fst (all_seeds_r2 m)) s3 = Inr s4"
    and l5: "(if fluorescence
              then summary_loop np (replicate_families m)
                     (map fst (all_seeds_replicate_concordance_srho m)) s4
              else Inr s4) = Inr s5"
    and r: "r = Some s5"
    unfolding build_summary_def by (simp split: sum.splits)
  have all: "(fam, d) \<in> set (all_families m)"
    using fam families_subset(1,4) by blast
  have "s5 (out @ key_suffix kd fam) = Some (entry_value np kd xs)" for kd
  proof -
    let ?k = "out @ key_suffix kd fam"
    let ?P = "\<lambda>s. \<exists>v. s ?k = Some v \<and> written np (all_families m) ?k v"
    have p4: "?P s4"
      using fam
    proof
      assume c: "(fam, d) \<in> set (classification_families m) \<and> out \<in> set (map fst (all_seeds_accuracy m))"
      have "?P s1" using loop_establishes [OF l1 families_subset(1) _ _ xs] c by blast
      then have "?P s2" using loop_preserves [OF l2 families_subset(2)] by blast
      then have "?P s3" using loop_preserves [OF l3 families_subset(3)] by blast
      then show "?P s4" using loop_preserves [OF l4 families_subset(4)] by blast
    next
      assume c: "(fam, d) \<in> set (regression_families m) \<and> out \<in> set (map fst (all_seeds_r2 m))"
      show "?P s4" using loop_establishes [OF l4 families_subset(4) _ _ xs] c by blast
    qed
    have p5: "?P s5"
    proof (cases fluorescence)
      case True
      with l5 have "summary_loop np (replicate_families m)
                     (map fst (all_seeds_replicate_concordance_srho m)) s4 = Inr s5" by simp
      from loop_preserves [OF this families_subset(5) p4] show ?thesis .
    next
      case False
      with l5 p4 show ?thesis by simp
    qed
    have w: "written np (all_families m) ?k (entry_value np kd xs)"
      unfolding written_def using all xs by blast
    from p5 obtain v where v: "s5 ?k = Some v" "written np (all_families m) ?k v" by blast
    from written_unique [OF v(2) w] v(1) show ?thesis by simp
  qed
  from this [of All] this [of Avg] this [of Std] r show ?thesis by simp
qed

lemma example_summary:
  "\<exists>s. build_summary example_numpy example_metrics True Map.empty = Inr (Some s)"
  by (simp add: build_summary_def example_metrics_def classification_families_def
      highly_expressed_families_def lowly_expressed_families_def regression_families_def
      replicate_families_def getitem_def)

theorem summary_entries_witness:
  "\<exists>s. build_summary example_numpy example_metrics True Map.empty = Inr (Some s)
      \<and> (''Accuracy'', all_seeds_accuracy example_metrics)
           \<in> set (classification_families example_metrics)
      \<and> ''JURKAT'' \<in> set (map fst (all_seeds_accuracy example_metrics))
      \<and> map_of (all_seeds_accuracy example_metrics) ''JURKAT'' = Some [Fin 1, Fin 1]
      \<and> s (''JURKAT'' @ ''_all_'' @ ''Accuracy'') = Some (JList [Fin 1, Fin 1])
      \<and> s (''JURKAT'' @ ''_avg_'' @ ''Accuracy'') = Some (JFloat (Fin 1))
      \<and> s (''JURKAT'' @ ''_std_'' @ ''Accuracy'') = Some (JFloat (Fin 0))
      \<and> (''SpearmanR'', all_seeds_srho example_metrics)
           \<in> set (regression_families example_metrics)
      \<and> ''K562'' \<in> set (map fst (all_seeds_r2 example_metrics))
      \<and> map_of (all_seeds_srho example_metrics) ''K562'' = Some [Fin (1 / 2), Fin (1 / 2)]
      \<and> s (''K562'' @ ''_all_'' @ ''SpearmanR'') = Some (JList [Fin (1 / 2), Fin (1 / 2)])
      \<and> s (''K562'' @ ''_avg_'' @ ''SpearmanR'') = Some (JFloat (Fin (1 / 2)))
      \<and> s (''K562'' @ ''_std_'' @ ''SpearmanR'') = Some (JFloat (Fin 0))"
proof -
  obtain s where ok: "build_summary example_numpy example_metrics True Map.empty = Inr (Some s)"
    using example_summary by blast
  have a1: "(''Accuracy'', all_seeds_accuracy example_metrics)
           \<in> set (classification_families example_metrics)"
    by (simp add: classification_families_def)
  have a2: "''JURKAT'' \<in> set (map fst (all_seeds_accuracy example_metrics))"
    by (simp add: example_metrics_def)
  have a3: "map_of (all_seeds_accuracy example_metrics) ''JURKAT'' = Some [Fin 1, Fin 1]"
    by (simp add: example_metrics_def)
  have b1: "(''SpearmanR'', all_seeds_srho example_metrics)
           \<in> set (regression_families example_metrics)"
    by (simp add: regression_families_def)
  have b2: "''K562'' \<in> set (map fst (all_seeds_r2 example_metrics))"
    by (simp add: example_metrics_def)
  have b3: "map_of (all_seeds_srho example_metrics) ''K562'' = Some [Fin (1 / 2), Fin (1 / 2)]"
    by (simp add: example_metrics_def)
  have A: "((''Accuracy'', all_seeds_accuracy example_metrics)
              \<in> set (classification_families example_metrics)
            \<and> ''JURKAT'' \<in> set (map fst (all_seeds_accuracy example_metrics)))
         \<or> ((''Accuracy'', all_seeds_accuracy example_metrics)
              \<in> set (regression_families example_metrics)
            \<and> ''JURKAT'' \<in> set (map fst (all_seeds_r2 example_metrics)))"
    using a1 a2 by blast
  have B: "((''SpearmanR'', all_seeds_srho example_metrics)
              \<in> set (classification_families example_metrics)
            \<and> ''K562'' \<in> set (map fst (all_seeds_accuracy example_metrics)))
         \<or> ((''SpearmanR'', all_seeds_srho example_metrics)
              \<in> set (regression_families example_metrics)
            \<and> ''K562'' \<in> set (map fst (all_seeds_r2 example_metrics)))"
    using b1 b2 by blast
  from summary_entries [OF ok A a3]
  have ra: "s (''JURKAT'' @ ''_all_'' @ ''Accuracy'') = Some (JList [Fin 1, Fin 1])"
    "s (''JURKAT'' @ ''_avg_'' @ ''Accuracy'') = Some (JFloat (average example_numpy [Fin 1, Fin 1]))"
    "s (''JURKAT'' @ ''_std_'' @ ''Accuracy'') = Some (JFloat (std example_numpy [Fin 1, Fin 1]))"
    by auto
  from summary_entries [OF ok B b3]
  have rb: "s (''K562'' @ ''_all_'' @ ''SpearmanR'') = Some (JList [Fin (1 / 2), Fin (1 / 2)])"
    "s (''K562'' @ ''_avg_'' @ ''SpearmanR'')
       = Some (JFloat (average example_numpy [Fin (1 / 2), Fin (1 / 2)]))"
    "s (''K562'' @ ''_std_'' @ ''SpearmanR'')
       = Some (JFloat (std example_numpy [Fin (1 / 2), Fin (1 / 2)]))"
    by auto
  have np: "average example_numpy [Fin 1, Fin 1] = Fin 1" "std example_numpy [Fin 1, Fin 1] = Fin 0"
    "average example_numpy [Fin (1 / 2), Fin (1 / 2)] = Fin (1 / 2)"
    "std example_numpy [Fin (1 / 2), Fin (1 / 2)] = Fin 0"
    by (simp_all add: example_numpy_def)
  show ?thesis
    using ok a1 a2 a3 b1 b2 b3 ra rb unfolding np by blast
qed

end
